theory Spec2Isabelle
  imports Main "HOL-Library.Word"
begin

section \<open>Host program of the OpenCL vector addition (opencl_matrix_add.cpp)\<close>

text \<open>
  The program is a single host thread that calls the C library and the OpenCL API.
  Both are outside the program, so they are a parameter of the model (a test double):
  the environment fixes the status every external call returns, the values of the
  unseeded generator behind \<open>rand()\<close>, the clock readings, and what uninitialised
  device memory holds. The program itself is modelled with explicit state passing over
  its global variables; every call it makes and every line it prints is appended to a
  trace, and \<open>exit(1)\<close> and a dereference of a pointer that is not valid end the run.

  C \<open>int\<close> is \<open>32 word\<close> (read with \<open>sint\<close>), \<open>size_t\<close> is \<open>64 word\<close>; status codes are
  only ever compared, so they are kept as \<open>int\<close>.
\<close>

subsection \<open>External calls, trace and environment\<close>

type_synonym c_int = "32 word"
type_synonym size_t = "64 word"

datatype vec = V1 | V2 | V_out

datatype devtype = CL_DEVICE_TYPE_GPU | CL_DEVICE_TYPE_CPU

datatype tmpbuf = Program_buffer | Program_log

text \<open>
  One constructor per external function the source calls, with the arguments the
  claims talk about. \<open>Malloc\<close>, \<open>Free\<close>, \<open>CreateBuffer\<close>, \<open>ReleaseMemObject\<close> and the two
  transfers carry the vector whose pointer or handle the call site uses. The status of
  an OpenCL call is its error code (\<open>CL_SUCCESS\<close> is 0, errors are negative); for
  \<open>malloc\<close> and \<open>fopen\<close> status 0 stands for a result that is not \<open>NULL\<close>. \<open>ReadFile\<close>
  stands for reading and closing the opened source file.
\<close>

datatype call =
    Malloc vec size_t
  | Free vec
  | MallocTmp tmpbuf
  | FreeTmp tmpbuf
  | Fopen string
  | ReadFile
  | GetPlatformIDs
  | GetDeviceIDs devtype
  | CreateContext
  | CreateProgramWithSource
  | BuildProgram
  | GetProgramBuildInfo
  | CreateCommandQueueWithProperties
  | CreateKernel string
  | CreateBuffer vec size_t
  | EnqueueWriteBuffer vec size_t
  | SetKernelArg nat
  | EnqueueNDRangeKernel size_t
  | WaitForEvents
  | EnqueueReadBuffer vec size_t
  | ReleaseMemObject vec
  | ReleaseKernel
  | ReleaseCommandQueue
  | ReleaseProgram
  | ReleaseContext
  | Clock_now

datatype printf_arg = ArgInt int | ArgStr string | ArgDuration int

datatype event =
    Call call
  | Printf string "printf_arg list"
  | Perror string

record env =
  status :: "call \<Rightarrow> int"
  rand_seq :: "nat \<Rightarrow> nat"
  clock :: "nat \<Rightarrow> int"
  build_log :: string
  dev_garbage :: "vec \<Rightarrow> nat \<Rightarrow> c_int"

definition CL_SUCCESS :: int where
  "CL_SUCCESS = 0"

definition CL_DEVICE_NOT_FOUND :: int where
  "CL_DEVICE_NOT_FOUND = - 1"

definition PRINT :: int where
  "PRINT = 1"

definition sizeof_int :: size_t where
  "sizeof_int = 4"

subsection \<open>Program state\<close>

text \<open>
  The global variables of the source that carry data or decide a branch, followed by
  the bookkeeping of the model: the kernel arguments bound so far, the number of
  \<open>rand()\<close> calls and clock readings made, the two time stamps local to \<open>main\<close>, and
  the trace. A host vector is the list of its elements, a device buffer is \<open>None\<close>
  while its handle is \<open>NULL\<close>. The opaque handles (device, context, program, queue,
  kernel, event) never decide a branch; they are visible as the calls that create and
  release them.
\<close>

record state =
  SZ :: c_int
  v1 :: "c_int list"
  v2 :: "c_int list"
  v_out :: "c_int list"
  bufV1 :: "c_int list option"
  bufV2 :: "c_int list option"
  bufV_out :: "c_int list option"
  err :: int
  arg_n :: "c_int option"
  arg_bufs :: "nat \<Rightarrow> vec option"
  rand_calls :: nat
  clock_reads :: nat
  t_start :: int
  t_stop :: int
  trace :: "event list"

datatype outcome = Exit int | Crash

datatype result = Running state | Stopped outcome state

fun seq :: "result \<Rightarrow> (state \<Rightarrow> result) \<Rightarrow> result" where
  "seq (Running s) f = f s"
| "seq (Stopped out s) f = Stopped out s"

definition emit :: "event \<Rightarrow> state \<Rightarrow> state" where
  "emit e s = s\<lparr>trace := trace s @ [e]\<rparr>"

definition initial_state :: state where
  "initial_state =
     \<lparr>SZ = 100000000, v1 = [], v2 = [], v_out = [],
      bufV1 = None, bufV2 = None, bufV_out = None, err = 0,
      arg_n = None, arg_bufs = (\<lambda>_. None), rand_calls = 0, clock_reads = 0,
      t_start = 0, t_stop = 0, trace = []\<rparr>"

fun host_vec :: "vec \<Rightarrow> state \<Rightarrow> c_int list" where
  "host_vec V1 s = v1 s"
| "host_vec V2 s = v2 s"
| "host_vec V_out s = v_out s"

fun set_host_vec :: "vec \<Rightarrow> c_int list \<Rightarrow> state \<Rightarrow> state" where
  "set_host_vec V1 xs s = s\<lparr>v1 := xs\<rparr>"
| "set_host_vec V2 xs s = s\<lparr>v2 := xs\<rparr>"
| "set_host_vec V_out xs s = s\<lparr>v_out := xs\<rparr>"

fun dev_buf :: "vec \<Rightarrow> state \<Rightarrow> c_int list option" where
  "dev_buf V1 s = bufV1 s"
| "dev_buf V2 s = bufV2 s"
| "dev_buf V_out s = bufV_out s"

fun set_dev_buf :: "vec \<Rightarrow> c_int list option \<Rightarrow> state \<Rightarrow> state" where
  "set_dev_buf V1 b s = s\<lparr>bufV1 := b\<rparr>"
| "set_dev_buf V2 b s = s\<lparr>bufV2 := b\<rparr>"
| "set_dev_buf V_out b s = s\<lparr>bufV_out := b\<rparr>"

subsection \<open>Command line: \<open>atoi\<close>\<close>

text \<open>
  \<open>atoi\<close> belongs to the C library, where it is \<open>(int) strtol(s, NULL, 10)\<close>: leading
  white space is skipped, one optional sign is read, then the longest run of decimal
  digits, and what follows is ignored; with no digit the result is 0. \<open>strtol\<close> returns
  a \<open>long\<close> of 64 bits and answers a value outside its range with \<open>LONG_MAX\<close> or
  \<open>LONG_MIN\<close>; the conversion to \<open>int\<close> keeps the low 32 bits.
\<close>

definition isspace :: "char \<Rightarrow> bool" where
  "isspace c = ((of_char c :: nat) = 32 \<or> (9 \<le> (of_char c :: nat) \<and> (of_char c :: nat) \<le> 13))"

definition isdigit :: "char \<Rightarrow> bool" where
  "isdigit c = (48 \<le> (of_char c :: nat) \<and> (of_char c :: nat) \<le> 57)"

definition LONG_MAX :: int where
  "LONG_MAX = 2 ^ 63 - 1"

definition LONG_MIN :: int where
  "LONG_MIN = - (2 ^ 63)"

fun digits_value :: "string \<Rightarrow> int \<Rightarrow> int" where
  "digits_value [] acc = acc"
| "digits_value (c # cs) acc =
     (if isdigit c then digits_value cs (acc * 10 + (int (of_char c) - 48)) else acc)"

definition strtol10 :: "string \<Rightarrow> int" where
  "strtol10 s =
     (case dropWhile isspace s of
        [] \<Rightarrow> 0
      | c # cs \<Rightarrow>
          if c = CHR ''-'' then max LONG_MIN (- digits_value cs 0)
          else if c = CHR ''+'' then min LONG_MAX (digits_value cs 0)
          else min LONG_MAX (digits_value (c # cs) 0))"

definition atoi :: "string \<Rightarrow> c_int" where
  "atoi s = word_of_int (strtol10 s)"

subsection \<open>\<open>init\<close> and \<open>print\<close>\<close>

text \<open>
  \<open>init\<close>: \<open>malloc(sizeof(int) * size)\<close>, then \<open>A[i] = rand() % 100\<close> for
  \<open>i = 0 .. size - 1\<close>. The result of \<open>malloc\<close> is not checked, so a \<open>NULL\<close> block is
  written to as soon as the loop runs once. With \<open>size \<le> 0\<close> the loop does not run and
  no element of the block is ever initialised (the vector is the empty list).
\<close>

function init_loop :: "env \<Rightarrow> int \<Rightarrow> nat \<Rightarrow> c_int list \<Rightarrow> nat \<Rightarrow> c_int list \<times> nat" where
  "init_loop E sz i A k =
     (if int i < sz
      then init_loop E sz (Suc i) (A[i := word_of_nat (rand_seq E k mod 100)]) (Suc k)
      else (A, k))"
  by pat_completeness auto
termination
  by (relation "measure (\<lambda>(E, sz, i, A, k). nat (sz - int i))") auto

declare init_loop.simps [simp del]

definition init :: "env \<Rightarrow> vec \<Rightarrow> c_int \<Rightarrow> state \<Rightarrow> result" where
  "init E v sz s =
     (let bytes = sizeof_int * scast sz;
          s1 = emit (Call (Malloc v bytes)) s
      in if status E (Malloc v bytes) = 0
         then (case init_loop E (sint sz) 0 (replicate (nat (sint sz)) 0) (rand_calls s1) of
                 (A, k) \<Rightarrow> Running (set_host_vec v A (s1\<lparr>rand_calls := k\<rparr>)))
         else if 0 < sint sz then Stopped Crash s1
         else Running (set_host_vec v [] s1))"

text \<open>
  \<open>print\<close>: each element goes through \<open>printf("%d ", A[i])\<close>. A read outside the
  vector is undefined behaviour in C and ends the run of the model.
\<close>

function print_loop :: "c_int list \<Rightarrow> int \<Rightarrow> int \<Rightarrow> state \<Rightarrow> result" where
  "print_loop A i hi s =
     (if i < hi
      then (if 0 \<le> i \<and> nat i < length A
            then print_loop A (i + 1) hi (emit (Printf ''%d '' [ArgInt (sint (A ! nat i))]) s)
            else Stopped Crash s)
      else Running s)"
  by pat_completeness auto
termination
  by (relation "measure (\<lambda>(A, i, hi, s). nat (hi - i))") auto

declare print_loop.simps [simp del]

definition ellipsis :: event where
  "ellipsis = Printf '' ..... '' []"

definition separator :: event where
  "separator = Printf ''\<newline>----------------------------\<newline>'' []"

definition print :: "c_int list \<Rightarrow> c_int \<Rightarrow> state \<Rightarrow> result" where
  "print A sz s =
     (if PRINT = 0 then Running s
      else seq (if PRINT = 1 \<and> 15 < sint sz
                then seq (seq (print_loop A 0 5 s) (\<lambda>s. Running (emit ellipsis s)))
                         (print_loop A (sint sz - 5) (sint sz))
                else print_loop A 0 (sint sz) s)
               (\<lambda>s. Running (emit separator s)))"

subsection \<open>Device selection, program build and set-up\<close>

definition create_device :: "env \<Rightarrow> state \<Rightarrow> result" where
  "create_device E s =
     (let s1 = emit (Call GetPlatformIDs) s
      in if status E GetPlatformIDs < 0
         then Stopped (Exit 1) (emit (Perror ''Couldn't identify a platform'') s1)
         else
           let s2 = emit (Call (GetDeviceIDs CL_DEVICE_TYPE_GPU)) s1;
               e2 = status E (GetDeviceIDs CL_DEVICE_TYPE_GPU);
               s3 = (if e2 = CL_DEVICE_NOT_FOUND
                     then emit (Call (GetDeviceIDs CL_DEVICE_TYPE_CPU))
                            (emit (Printf ''GPU not found\<newline>'' []) s2)
                     else s2);
               e3 = (if e2 = CL_DEVICE_NOT_FOUND
                     then status E (GetDeviceIDs CL_DEVICE_TYPE_CPU) else e2)
           in if e3 < 0
              then Stopped (Exit 1) (emit (Perror ''Couldn't access any devices'') s3)
              else Running s3)"

text \<open>
  \<open>build_program\<close> has no local \<open>err\<close>: it is the one function that assigns the global
  \<open>err\<close> (through \<open>clCreateProgramWithSource\<close> and from \<open>clBuildProgram\<close>).
\<close>

definition build_program :: "env \<Rightarrow> string \<Rightarrow> state \<Rightarrow> result" where
  "build_program E filename s =
     (let s1 = emit (Call (Fopen filename)) s
      in if status E (Fopen filename) \<noteq> 0
         then Stopped (Exit 1) (emit (Perror ''Couldn't find the program file'') s1)
         else
           let s2 = emit (Call (MallocTmp Program_buffer)) s1
           in if status E (MallocTmp Program_buffer) \<noteq> 0 then Stopped Crash s2
              else
                let s3 = emit (Call CreateProgramWithSource) (emit (Call ReadFile) s2);
                    s4 = s3\<lparr>err := status E CreateProgramWithSource\<rparr>
                in if err s4 < 0
                   then Stopped (Exit 1) (emit (Perror ''Couldn't create the program'') s4)
                   else
                     let s5 = emit (Call BuildProgram) (emit (Call (FreeTmp Program_buffer)) s4);
                         s6 = s5\<lparr>err := status E BuildProgram\<rparr>
                     in if err s6 < 0
                        then
                          let s7 = emit (Call (MallocTmp Program_log))
                                     (emit (Call GetProgramBuildInfo) s6)
                          in if status E (MallocTmp Program_log) \<noteq> 0 then Stopped Crash s7
                             else Stopped (Exit 1)
                                    (emit (Call (FreeTmp Program_log))
                                      (emit (Printf ''%s\<newline>'' [ArgStr (build_log E)])
                                        (emit (Call GetProgramBuildInfo) s7)))
                        else Running s6)"

text \<open>
  \<open>setup_openCL_device_context_queue_kernel\<close> declares a local \<open>err\<close> that shadows
  the global one, so its three checks do not touch the state.
\<close>

definition setup_openCL_device_context_queue_kernel ::
    "env \<Rightarrow> string \<Rightarrow> string \<Rightarrow> state \<Rightarrow> result" where
  "setup_openCL_device_context_queue_kernel E filename kernelname s =
     seq (create_device E s) (\<lambda>s.
       let s1 = emit (Call CreateContext) s
       in if status E CreateContext < 0
          then Stopped (Exit 1) (emit (Perror ''Couldn't create a context'') s1)
          else seq (build_program E filename s1) (\<lambda>s.
            let s2 = emit (Call CreateCommandQueueWithProperties) s
            in if status E CreateCommandQueueWithProperties < 0
               then Stopped (Exit 1) (emit (Perror ''Couldn't create a command queue'') s2)
               else
                 let s3 = emit (Call (CreateKernel kernelname)) s2
                 in if status E (CreateKernel kernelname) < 0
                    then Stopped (Exit 1)
                           (emit (Printf ''error =%d'' [ArgInt (status E (CreateKernel kernelname))])
                             (emit (Perror ''Couldn't create a kernel'') s3))
                    else Running s3))"

subsection \<open>Buffers, kernel arguments, kernel\<close>

text \<open>
  A transfer of \<open>bytes\<close> bytes moves \<open>bytes / sizeof(int)\<close> elements; positions past
  that count, or past the end of the source, keep what the destination held.
\<close>

definition copy_words :: "nat \<Rightarrow> c_int list \<Rightarrow> c_int list \<Rightarrow> c_int list" where
  "copy_words n src dst =
     map (\<lambda>i. if i < n \<and> i < length src then src ! i else dst ! i) [0..<length dst]"

definition words_of_bytes :: "size_t \<Rightarrow> nat" where
  "words_of_bytes bytes = unat bytes div unat sizeof_int"

text \<open>
  \<open>clCreateBuffer(context, CL_MEM_READ_WRITE, SZ * sizeof(int), NULL, NULL)\<close>: the
  error code pointer is \<open>NULL\<close>, the handle is stored unchecked. The handle is \<open>NULL\<close>
  exactly when the platform does not report success.
\<close>

definition create_buffer :: "env \<Rightarrow> vec \<Rightarrow> state \<Rightarrow> state" where
  "create_buffer E v s =
     (let bytes = scast (SZ s) * sizeof_int;
          s1 = emit (Call (CreateBuffer v bytes)) s
      in set_dev_buf v
           (if status E (CreateBuffer v bytes) = CL_SUCCESS
            then Some (map (dev_garbage E v) [0..<words_of_bytes bytes]) else None) s1)"

text \<open>
  \<open>clEnqueueWriteBuffer(queue, buf, CL_TRUE, 0, SZ * sizeof(int), &v[0], 0, NULL, NULL)\<close>:
  the returned status is dropped.
\<close>

definition write_buffer :: "env \<Rightarrow> vec \<Rightarrow> state \<Rightarrow> state" where
  "write_buffer E v s =
     (let bytes = scast (SZ s) * sizeof_int;
          s1 = emit (Call (EnqueueWriteBuffer v bytes)) s
      in if status E (EnqueueWriteBuffer v bytes) = CL_SUCCESS
         then (case dev_buf v s1 of
                 Some d \<Rightarrow> set_dev_buf v (Some (copy_words (words_of_bytes bytes) (host_vec v s1) d)) s1
               | None \<Rightarrow> s1)
         else s1)"

definition setup_kernel_memory :: "env \<Rightarrow> state \<Rightarrow> result" where
  "setup_kernel_memory E s =
     Running (write_buffer E V2 (write_buffer E V1
       (create_buffer E V_out (create_buffer E V2 (create_buffer E V1 s)))))"

definition set_kernel_arg_size :: "env \<Rightarrow> state \<Rightarrow> state" where
  "set_kernel_arg_size E s =
     (let s1 = emit (Call (SetKernelArg 0)) s
      in if status E (SetKernelArg 0) = CL_SUCCESS then s1\<lparr>arg_n := Some (SZ s1)\<rparr> else s1)"

definition set_kernel_arg_buf :: "env \<Rightarrow> nat \<Rightarrow> vec \<Rightarrow> state \<Rightarrow> state" where
  "set_kernel_arg_buf E k v s =
     (let s1 = emit (Call (SetKernelArg k)) s
      in if status E (SetKernelArg k) = CL_SUCCESS
         then s1\<lparr>arg_bufs := (arg_bufs s1)(k := Some v)\<rparr> else s1)"

text \<open>
  \<open>copy_kernel_args\<close>: the four results of \<open>clSetKernelArg\<close> are dropped; the test
  that follows reads the global \<open>err\<close>.
\<close>

definition copy_kernel_args :: "env \<Rightarrow> state \<Rightarrow> result" where
  "copy_kernel_args E s =
     (let s4 = set_kernel_arg_buf E 3 V_out (set_kernel_arg_buf E 2 V2
                 (set_kernel_arg_buf E 1 V1 (set_kernel_arg_size E s)))
      in if err s4 < 0
         then Stopped (Exit 1)
                (emit (Printf ''error = %d'' [ArgInt (err s4)])
                  (emit (Perror ''Couldn't create a kernel argument'') s4))
         else Running s4)"

text \<open>
  Modelled from the spec: the kernel source \<open>./vector_ops_ocl.cl\<close> with the entry
  point \<open>vector_add_ocl\<close> is not among the sources. The specification says of it: an
  entry point that performs, for each index i in [0, N): \<open>out[i] = a[i] + b[i]\<close>. The
  arguments are, in order, the problem size and the three buffers; addition is that of
  the 32-bit element type. Indices outside a buffer are not touched.
\<close>

definition vector_add_ocl :: "c_int \<Rightarrow> c_int list \<Rightarrow> c_int list \<Rightarrow> c_int list \<Rightarrow> c_int list" where
  "vector_add_ocl n a b out =
     map (\<lambda>i. if int i < sint n \<and> i < length a \<and> i < length b then a ! i + b ! i else out ! i)
       [0..<length out]"

text \<open>
  What the device does with a launch the platform accepted: the kernel runs on the
  bound arguments. The queue is in order, so the effect is in place before the
  read-back that follows.
\<close>

definition run_kernel :: "state \<Rightarrow> state" where
  "run_kernel s =
     (case (arg_n s, arg_bufs s 1, arg_bufs s 2, arg_bufs s 3) of
        (Some n, Some a, Some b, Some c) \<Rightarrow>
          (case (dev_buf a s, dev_buf b s, dev_buf c s) of
             (Some xa, Some xb, Some xc) \<Rightarrow> set_dev_buf c (Some (vector_add_ocl n xa xb xc)) s
           | _ \<Rightarrow> s)
      | _ \<Rightarrow> s)"

definition enqueue_kernel :: "env \<Rightarrow> size_t \<Rightarrow> state \<Rightarrow> state" where
  "enqueue_kernel E global s =
     (let s1 = emit (Call (EnqueueNDRangeKernel global)) s
      in if status E (EnqueueNDRangeKernel global) = CL_SUCCESS then run_kernel s1 else s1)"

definition read_buffer :: "env \<Rightarrow> state \<Rightarrow> state" where
  "read_buffer E s =
     (let bytes = scast (SZ s) * sizeof_int;
          s1 = emit (Call (EnqueueReadBuffer V_out bytes)) s
      in if status E (EnqueueReadBuffer V_out bytes) = CL_SUCCESS
         then (case bufV_out s1 of
                 Some d \<Rightarrow> s1\<lparr>v_out := copy_words (words_of_bytes bytes) d (v_out s1)\<rparr>
               | None \<Rightarrow> s1)
         else s1)"

subsection \<open>Teardown and \<open>main\<close>\<close>

text \<open>
  \<open>free_memory\<close> makes ten release calls and assigns nothing; the vectors keep the
  last contents they had.
\<close>

definition free_memory :: "state \<Rightarrow> state" where
  "free_memory s =
     foldl (\<lambda>s c. emit (Call c) s) s
       [ReleaseMemObject V1, ReleaseMemObject V2, ReleaseMemObject V_out,
        ReleaseKernel, ReleaseCommandQueue, ReleaseProgram, ReleaseContext,
        Free V1, Free V2, Free V_out]"

definition now :: "env \<Rightarrow> state \<Rightarrow> int \<times> state" where
  "now E s = (clock E (clock_reads s), (emit (Call Clock_now) s)\<lparr>clock_reads := Suc (clock_reads s)\<rparr>)"

text \<open>
  \<open>main\<close> in four parts, in source order: lines 32 to 43 (size, the three vectors,
  printing the inputs), lines 46 to 48 (set-up), lines 50 to 60 (the statements between
  the two clock readings, readings included), lines 61 to 64 (report and teardown).
  \<open>argc\<close> is the length of \<open>argv\<close>.
\<close>

definition main_inputs :: "env \<Rightarrow> string list \<Rightarrow> state \<Rightarrow> result" where
  "main_inputs E argv s =
     (let s0 = (if 1 < length argv then s\<lparr>SZ := atoi (argv ! 1)\<rparr> else s)
      in seq (seq (seq (seq (init E V1 (SZ s0) s0)
           (\<lambda>s. init E V2 (SZ s) s))
           (\<lambda>s. init E V_out (SZ s) s))
           (\<lambda>s. print (v1 s) (SZ s) s))
           (\<lambda>s. print (v2 s) (SZ s) s))"

definition main_setup :: "env \<Rightarrow> state \<Rightarrow> result" where
  "main_setup E s =
     seq (seq (setup_openCL_device_context_queue_kernel E ''./vector_ops_ocl.cl'' ''vector_add_ocl'' s)
           (setup_kernel_memory E))
           (copy_kernel_args E)"

definition main_timed :: "env \<Rightarrow> state \<Rightarrow> result" where
  "main_timed E s =
     (case now E s of
        (start, s0) \<Rightarrow>
          let s1 = s0\<lparr>t_start := start\<rparr>;
              s2 = enqueue_kernel E (scast (SZ s1)) s1;
              s3 = emit (Call WaitForEvents) s2;
              s4 = read_buffer E s3
          in seq (print (v_out s4) (SZ s4) s4)
               (\<lambda>s5. case now E s5 of (stop, s6) \<Rightarrow> Running (s6\<lparr>t_stop := stop\<rparr>)))"

definition main_report :: "state \<Rightarrow> result" where
  "main_report s =
     Stopped (Exit 0)
       (free_memory
         (emit (Printf ''Kernel Execution Time: %f ms\<newline>'' [ArgDuration (t_stop s - t_start s)]) s))"

definition main :: "env \<Rightarrow> string list \<Rightarrow> result" where
  "main E argv =
     seq (seq (seq (main_inputs E argv initial_state) (main_setup E)) (main_timed E)) main_report"

text \<open>Reading a result.\<close>

fun final :: "result \<Rightarrow> state" where
  "final (Running s) = s"
| "final (Stopped out s) = s"

fun outcome_of :: "result \<Rightarrow> outcome option" where
  "outcome_of (Running s) = None"
| "outcome_of (Stopped out s) = Some out"

subsection \<open>Vocabulary of the statements\<close>

text \<open>
  The \<open>n\<close> values \<open>rand() % 100\<close> drawn from the \<open>k\<close>-th call of \<open>rand()\<close> on.
\<close>

definition rand_vec :: "env \<Rightarrow> nat \<Rightarrow> nat \<Rightarrow> c_int list" where
  "rand_vec E k n = map (\<lambda>j. word_of_nat (rand_seq E (k + j) mod 100)) [0..<n]"

text \<open>What \<open>printf("%d ", x)\<close> leaves in the trace.\<close>

definition pr :: "c_int \<Rightarrow> event" where
  "pr x = Printf ''%d '' [ArgInt (sint x)]"

text \<open>
  The printed form of a vector as the specification words it: the first five and the
  last five elements around the ellipsis when there are more than 15, every element
  otherwise, then the separator line.
\<close>

definition render :: "c_int list \<Rightarrow> event list" where
  "render A =
     (if 15 < length A then map pr (take 5 A) @ [ellipsis] @ map pr (drop (length A - 5) A)
      else map pr A) @ [separator]"

text \<open>
  The size a run uses: the argument read by \<open>atoi\<close> when there is one, the default
  otherwise; and the byte count \<open>sizeof(int) * size\<close> that \<open>init\<close> passes to \<open>malloc\<close>.
\<close>

definition chosen_size :: "string list \<Rightarrow> c_int" where
  "chosen_size argv = (if 1 < length argv then atoi (argv ! 1) else 100000000)"

definition vec_bytes :: "c_int \<Rightarrow> size_t" where
  "vec_bytes N = sizeof_int * scast N"

text \<open>The state after lines 32 to 43 of \<open>main\<close> when no allocation made the run crash.\<close>

definition inputs_state :: "env \<Rightarrow> c_int \<Rightarrow> state" where
  "inputs_state E N =
     initial_state\<lparr>SZ := N,
        v1 := rand_vec E 0 (nat (sint N)),
        v2 := rand_vec E (nat (sint N)) (nat (sint N)),
        v_out := rand_vec E (2 * nat (sint N)) (nat (sint N)),
        rand_calls := 3 * nat (sint N),
        trace := [Call (Malloc V1 (vec_bytes N)), Call (Malloc V2 (vec_bytes N)),
                  Call (Malloc V_out (vec_bytes N))]
                 @ render (rand_vec E 0 (nat (sint N)))
                 @ render (rand_vec E (nat (sint N)) (nat (sint N)))\<rparr>"

text \<open>Projections of the trace: standard output, release calls, diagnostics.\<close>

fun is_printf :: "event \<Rightarrow> bool" where
  "is_printf (Printf fmt args) = True"
| "is_printf e = False"

fun is_release :: "event \<Rightarrow> bool" where
  "is_release (Call (ReleaseMemObject v)) = True"
| "is_release (Call ReleaseKernel) = True"
| "is_release (Call ReleaseCommandQueue) = True"
| "is_release (Call ReleaseProgram) = True"
| "is_release (Call ReleaseContext) = True"
| "is_release (Call (Free v)) = True"
| "is_release e = False"

text \<open>What a stage leaves untouched: the size, the host vectors and the two counters.\<close>

definition same_data :: "state \<Rightarrow> state \<Rightarrow> bool" where
  "same_data s s' = (SZ s' = SZ s \<and> v1 s' = v1 s \<and> v2 s' = v2 s \<and> v_out s' = v_out s
      \<and> rand_calls s' = rand_calls s \<and> clock_reads s' = clock_reads s)"

text \<open>The byte count \<open>SZ * sizeof(int)\<close> of the buffer calls.\<close>

definition buf_bytes :: "c_int \<Rightarrow> size_t" where
  "buf_bytes N = scast N * sizeof_int"

text \<open>The calls \<open>main\<close> makes from the first clock reading up to the read-back.\<close>

definition timed_calls :: "c_int \<Rightarrow> event list" where
  "timed_calls N =
     [Call Clock_now, Call (EnqueueNDRangeKernel (scast N)), Call WaitForEvents,
      Call (EnqueueReadBuffer V_out (buf_bytes N))]"

text \<open>The calls of \<open>setup_kernel_memory\<close>, \<open>copy_kernel_args\<close> and \<open>free_memory\<close>, in order.\<close>

definition memory_calls :: "c_int \<Rightarrow> event list" where
  "memory_calls N =
     [Call (CreateBuffer V1 (buf_bytes N)), Call (CreateBuffer V2 (buf_bytes N)),
      Call (CreateBuffer V_out (buf_bytes N)),
      Call (EnqueueWriteBuffer V1 (buf_bytes N)), Call (EnqueueWriteBuffer V2 (buf_bytes N)),
      Call (SetKernelArg 0), Call (SetKernelArg 1), Call (SetKernelArg 2), Call (SetKernelArg 3)]"

definition release_calls :: "event list" where
  "release_calls =
     [Call (ReleaseMemObject V1), Call (ReleaseMemObject V2), Call (ReleaseMemObject V_out),
      Call ReleaseKernel, Call ReleaseCommandQueue, Call ReleaseProgram, Call ReleaseContext,
      Call (Free V1), Call (Free V2), Call (Free V_out)]"

text \<open>The last line \<open>main\<close> prints, and the set-up call with the two constants of \<open>main\<close>.\<close>

definition time_line :: "int \<Rightarrow> event" where
  "time_line d = Printf ''Kernel Execution Time: %f ms\<newline>'' [ArgDuration d]"

abbreviation setup_main :: "env \<Rightarrow> state \<Rightarrow> result" where
  "setup_main E s \<equiv>
     setup_openCL_device_context_queue_kernel E ''./vector_ops_ocl.cl'' ''vector_add_ocl'' s"

text \<open>
  Concrete environments: one where every call succeeds, and one where a single call
  returns a given status.
\<close>

definition env_ok :: env where
  "env_ok = \<lparr>status = (\<lambda>c. 0), rand_seq = (\<lambda>k. 7 * k + 3), clock = (\<lambda>k. 1000 * int k),
     build_log = [], dev_garbage = (\<lambda>v i. 0)\<rparr>"

definition env_fail :: "call \<Rightarrow> int \<Rightarrow> env" where
  "env_fail c e = env_ok\<lparr>status := (\<lambda>x. if x = c then e else 0)\<rparr>"

text \<open>The device classes requested, in order of the requests.\<close>

definition device_requests :: "event list \<Rightarrow> devtype list" where
  "device_requests tr = concat (map (\<lambda>e. case e of Call (GetDeviceIDs d) \<Rightarrow> [d] | _ \<Rightarrow> []) tr)"

fun is_perror :: "event \<Rightarrow> bool" where
  "is_perror (Perror m) = True"
| "is_perror e = False"

text \<open>The events strictly between the first and the second clock reading.\<close>

definition timed_window :: "event list \<Rightarrow> event list" where
  "timed_window tr =
     takeWhile (\<lambda>e. e \<noteq> Call Clock_now) (tl (dropWhile (\<lambda>e. e \<noteq> Call Clock_now) tr))"

text \<open>
  An event carries the size \<open>N\<close> when it is not a sized call, or its byte count or
  work-item count is the one computed from \<open>N\<close>.
\<close>

fun sized_ok :: "c_int \<Rightarrow> event \<Rightarrow> bool" where
  "sized_ok N (Call (Malloc v b)) = (b = vec_bytes N)"
| "sized_ok N (Call (CreateBuffer v b)) = (b = buf_bytes N)"
| "sized_ok N (Call (EnqueueWriteBuffer v b)) = (b = buf_bytes N)"
| "sized_ok N (Call (EnqueueReadBuffer v b)) = (b = buf_bytes N)"
| "sized_ok N (Call (EnqueueNDRangeKernel g)) = (g = scast N)"
| "sized_ok N e = True"

text \<open>What \<open>create_device\<close> prints when it falls back to the CPU.\<close>

definition gpu_notice :: "env \<Rightarrow> event list" where
  "gpu_notice E =
     (if status E (GetDeviceIDs CL_DEVICE_TYPE_GPU) = CL_DEVICE_NOT_FOUND
      then [Printf ''GPU not found\<newline>'' []] else [])"

text \<open>
  The C library's "no conversion could be performed": after white space and an
  optional sign, no decimal digit follows.
\<close>

definition no_conversion :: "string \<Rightarrow> bool" where
  "no_conversion s =
     (case dropWhile isspace s of
        [] \<Rightarrow> True
      | c # cs \<Rightarrow>
          if c = CHR ''-'' \<or> c = CHR ''+'' then (case cs of [] \<Rightarrow> True | d # ds \<Rightarrow> \<not> isdigit d)
          else \<not> isdigit c)"

text \<open>
  The claim's "parses as a decimal integer": an optional sign, then decimal digits only,
  at least one. And the number a run of decimal digits denotes.
\<close>

definition is_decimal_integer :: "string \<Rightarrow> bool" where
  "is_decimal_integer s =
     (case s of
        [] \<Rightarrow> False
      | c # cs \<Rightarrow>
          if c = CHR ''-'' \<or> c = CHR ''+'' then cs \<noteq> [] \<and> list_all isdigit cs
          else list_all isdigit (c # cs))"

definition decimal_value :: "string \<Rightarrow> int" where
  "decimal_value ds = foldl (\<lambda>a c. a * 10 + (int (of_char c) - 48)) 0 ds"

text \<open>
  The number of elements a device buffer holds (\<open>None\<close> while there is no buffer), and
  the buffer creations in a trace.
\<close>

definition buf_len :: "vec \<Rightarrow> state \<Rightarrow> nat option" where
  "buf_len v s = map_option length (dev_buf v s)"

fun is_create_buffer :: "event \<Rightarrow> bool" where
  "is_create_buffer (Call (CreateBuffer v b)) = True"
| "is_create_buffer e = False"

text \<open>
  A platform whose host allocator refuses more than 4 GiB and whose device refuses
  buffers of zero bytes (\<open>CL_INVALID_BUFFER_SIZE\<close>, -61) or of more than 4 GiB.
\<close>

definition env_limited :: env where
  "env_limited =
     env_ok\<lparr>status := (\<lambda>c. case c of
         Malloc v b \<Rightarrow> (if 4294967296 < b then 1 else 0)
       | CreateBuffer v b \<Rightarrow> (if b = 0 \<or> 4294967296 < b then - 61 else 0)
       | _ \<Rightarrow> 0)\<rparr>"

section \<open>Properties\<close>

subsection \<open>The two loops\<close>

lemma init_loop_eq:
  "length A = nat sz \<Longrightarrow> i \<le> nat sz \<Longrightarrow>
   init_loop E sz i A k = (take i A @ rand_vec E k (nat sz - i), k + (nat sz - i))"
proof (induction E sz i A k rule: init_loop.induct)
  case (1 E sz i A k)
  show ?case
  proof (cases "int i < sz")
    case True
    then have lt: "i < nat sz" by linarith
    have len: "length (A[i := word_of_nat (rand_seq E k mod 100)]) = nat sz"
      using "1.prems" by simp
    have step: "init_loop E sz i A k =
          init_loop E sz (Suc i) (A[i := word_of_nat (rand_seq E k mod 100)]) (Suc k)"
      using True by (subst init_loop.simps) simp
    have ih: "init_loop E sz (Suc i) (A[i := word_of_nat (rand_seq E k mod 100)]) (Suc k) =
          (take (Suc i) (A[i := word_of_nat (rand_seq E k mod 100)]) @ rand_vec E (Suc k) (nat sz - Suc i),
           Suc k + (nat sz - Suc i))"
      using "1.IH" [OF True len] lt by simp
    have tk: "take (Suc i) (A[i := word_of_nat (rand_seq E k mod 100)]) =
          take i A @ [word_of_nat (rand_seq E k mod 100)]"
      using lt "1.prems" by (simp add: take_Suc_conv_app_nth)
    have rv: "rand_vec E k (nat sz - i) =
          word_of_nat (rand_seq E k mod 100) # rand_vec E (Suc k) (nat sz - Suc i)"
    proof -
      obtain m where m: "nat sz - i = Suc m" using lt by (metis Suc_diff_Suc)
      then have m': "nat sz - Suc i = m" by simp
      show ?thesis unfolding m m' rand_vec_def
        by (simp add: upt_conv_Cons map_Suc_upt [symmetric] del: upt_Suc)
    qed
    show ?thesis using step ih tk rv lt by simp
  next
    case False
    then have "i = nat sz" using "1.prems" by linarith
    then show ?thesis using False "1.prems" by (subst init_loop.simps) (simp add: rand_vec_def)
  qed
qed

lemma print_loop_eq:
  "0 \<le> i \<Longrightarrow> hi \<le> int (length A) \<Longrightarrow>
   print_loop A i hi s = Running (s\<lparr>trace := trace s @ map pr (take (nat (hi - i)) (drop (nat i) A))\<rparr>)"
proof (induction A i hi s rule: print_loop.induct)
  case (1 A i hi s)
  show ?case
  proof (cases "i < hi")
    case True
    then have inr: "nat i < length A" using "1.prems" by linarith
    have step: "print_loop A i hi s = print_loop A (i + 1) hi (emit (pr (A ! nat i)) s)"
      using True inr "1.prems" by (subst print_loop.simps) (simp add: pr_def)
    have ih: "print_loop A (i + 1) hi (emit (pr (A ! nat i)) s) =
        Running ((emit (pr (A ! nat i)) s)\<lparr>trace := trace (emit (pr (A ! nat i)) s) @
           map pr (take (nat (hi - (i + 1))) (drop (nat (i + 1)) A))\<rparr>)"
      using "1.IH" [of ] True inr "1.prems" by (simp add: pr_def)
    obtain m where m: "nat (hi - i) = Suc m" using True by (metis Suc_pred' zero_less_nat_eq diff_gt_0_iff_gt)
    then have m': "nat (hi - (i + 1)) = m" by linarith
    have n1: "nat (i + 1) = Suc (nat i)" using "1.prems" by linarith
    have dr: "take (Suc m) (drop (nat i) A) = A ! nat i # take m (drop (Suc (nat i)) A)"
      using inr by (simp add: Cons_nth_drop_Suc [symmetric])
    show ?thesis unfolding step ih m m' n1 dr by (simp add: emit_def)
  next
    case False
    then show ?thesis by (subst print_loop.simps) simp
  qed
qed

lemma print_eq:
  assumes "length A = nat (sint sz)"
  shows "print A sz s = Running (s\<lparr>trace := trace s @ render A\<rparr>)"
proof (cases "15 < sint sz")
  case True
  then have len: "15 < length A" "5 \<le> int (length A)" "sint sz \<le> int (length A)" "0 \<le> sint sz - 5"
    using assms by simp_all
  have n: "nat (sint sz - (sint sz - 5)) = 5" by simp
  have d: "nat (sint sz - 5) = length A - 5" using assms True by simp
  show ?thesis
    using len True
    by (simp add: print_def PRINT_def print_loop_eq render_def emit_def n d)
next
  case False
  then have len: "\<not> 15 < length A" "sint sz \<le> int (length A)" using assms by simp_all
  have n: "nat (sint sz) = length A" using assms by simp
  show ?thesis
    using len False
    by (simp add: print_def PRINT_def print_loop_eq render_def emit_def n)
qed

lemma init_eq:
  "init E v sz s =
     (if status E (Malloc v (sizeof_int * scast sz)) \<noteq> 0 \<and> 0 < sint sz
      then Stopped Crash (emit (Call (Malloc v (sizeof_int * scast sz))) s)
      else Running (set_host_vec v (rand_vec E (rand_calls s) (nat (sint sz)))
             (s\<lparr>rand_calls := rand_calls s + nat (sint sz),
                trace := trace s @ [Call (Malloc v (sizeof_int * scast sz))]\<rparr>)))"
  by (cases v) (simp_all add: init_def Let_def init_loop_eq emit_def rand_vec_def)

subsection \<open>The stages of \<open>main\<close>\<close>

lemma length_rand_vec [simp]: "length (rand_vec E k n) = n"
  by (simp add: rand_vec_def)

lemma main_inputs_eq:
  "main_inputs E argv initial_state =
     (if 0 < sint (chosen_size argv) \<and> status E (Malloc V1 (vec_bytes (chosen_size argv))) \<noteq> 0
      then Stopped Crash (initial_state\<lparr>SZ := chosen_size argv,
             trace := [Call (Malloc V1 (vec_bytes (chosen_size argv)))]\<rparr>)
      else if 0 < sint (chosen_size argv) \<and> status E (Malloc V2 (vec_bytes (chosen_size argv))) \<noteq> 0
      then Stopped Crash (initial_state\<lparr>SZ := chosen_size argv,
             v1 := rand_vec E 0 (nat (sint (chosen_size argv))),
             rand_calls := nat (sint (chosen_size argv)),
             trace := [Call (Malloc V1 (vec_bytes (chosen_size argv))),
                       Call (Malloc V2 (vec_bytes (chosen_size argv)))]\<rparr>)
      else if 0 < sint (chosen_size argv) \<and> status E (Malloc V_out (vec_bytes (chosen_size argv))) \<noteq> 0
      then Stopped Crash (initial_state\<lparr>SZ := chosen_size argv,
             v1 := rand_vec E 0 (nat (sint (chosen_size argv))),
             v2 := rand_vec E (nat (sint (chosen_size argv))) (nat (sint (chosen_size argv))),
             rand_calls := 2 * nat (sint (chosen_size argv)),
             trace := [Call (Malloc V1 (vec_bytes (chosen_size argv))),
                       Call (Malloc V2 (vec_bytes (chosen_size argv))),
                       Call (Malloc V_out (vec_bytes (chosen_size argv)))]\<rparr>)
      else Running (inputs_state E (chosen_size argv)))"
proof -
  have sz: "(if 1 < length argv then initial_state\<lparr>SZ := atoi (argv ! 1)\<rparr> else initial_state)
        = initial_state\<lparr>SZ := chosen_size argv\<rparr>"
    by (simp add: chosen_size_def initial_state_def)
  show ?thesis
    unfolding main_inputs_def sz Let_def
    by (simp add: init_eq print_eq emit_def vec_bytes_def inputs_state_def initial_state_def mult_2)
qed

lemmas setup_defs = setup_openCL_device_context_queue_kernel_def create_device_def
  build_program_def Let_def emit_def

lemma setup_frame:
  "same_data s (final (setup_openCL_device_context_queue_kernel E f k s))"
  by (simp add: setup_defs same_data_def)

lemma setup_outcome:
  "outcome_of (setup_openCL_device_context_queue_kernel E f k s) \<in> {None, Some (Exit 1), Some Crash}"
  by (simp add: setup_defs)

lemma setup_err:
  "setup_openCL_device_context_queue_kernel E f k s = Running s' \<Longrightarrow> 0 \<le> err s'"
  by (auto simp add: setup_defs split: if_splits)

lemma setup_releases:
  "filter is_release (trace (final (setup_openCL_device_context_queue_kernel E f k s)))
     = filter is_release (trace s)"
  by (simp add: setup_defs)

lemma setup_printfs:
  "setup_openCL_device_context_queue_kernel E f k s = Running s' \<Longrightarrow>
   filter is_printf (trace s') = filter is_printf (trace s) @
     (if status E (GetDeviceIDs CL_DEVICE_TYPE_GPU) = CL_DEVICE_NOT_FOUND
      then [Printf ''GPU not found\<newline>'' []] else [])"
  by (auto simp add: setup_defs split: if_splits)

lemmas mem_defs = setup_kernel_memory_def create_buffer_def write_buffer_def Let_def emit_def

lemmas arg_defs = copy_kernel_args_def set_kernel_arg_size_def set_kernel_arg_buf_def Let_def emit_def

lemma setup_kernel_memory_Running:
  "\<exists>s'. setup_kernel_memory E s = Running s' \<and> same_data s s' \<and> err s' = err s \<and>
        trace s' = trace s @
          [Call (CreateBuffer V1 (buf_bytes (SZ s))), Call (CreateBuffer V2 (buf_bytes (SZ s))),
           Call (CreateBuffer V_out (buf_bytes (SZ s))),
           Call (EnqueueWriteBuffer V1 (buf_bytes (SZ s))),
           Call (EnqueueWriteBuffer V2 (buf_bytes (SZ s)))]"
  by (simp add: mem_defs same_data_def buf_bytes_def split: option.splits)

lemma copy_kernel_args_Running:
  "0 \<le> err s \<Longrightarrow>
   \<exists>s'. copy_kernel_args E s = Running s' \<and> same_data s s' \<and> err s' = err s \<and>
        bufV1 s' = bufV1 s \<and> bufV2 s' = bufV2 s \<and> bufV_out s' = bufV_out s \<and>
        trace s' = trace s @
          [Call (SetKernelArg 0), Call (SetKernelArg 1), Call (SetKernelArg 2), Call (SetKernelArg 3)]"
  by (simp add: arg_defs same_data_def)

lemma length_copy_words [simp]: "length (copy_words n src dst) = length dst"
  by (simp add: copy_words_def)

lemma set_dev_buf_frame [simp]:
  "SZ (set_dev_buf c b s) = SZ s" "v1 (set_dev_buf c b s) = v1 s"
  "v2 (set_dev_buf c b s) = v2 s" "v_out (set_dev_buf c b s) = v_out s"
  "trace (set_dev_buf c b s) = trace s" "rand_calls (set_dev_buf c b s) = rand_calls s"
  "clock_reads (set_dev_buf c b s) = clock_reads s" "err (set_dev_buf c b s) = err s"
  "t_start (set_dev_buf c b s) = t_start s" "t_stop (set_dev_buf c b s) = t_stop s"
  "arg_n (set_dev_buf c b s) = arg_n s" "arg_bufs (set_dev_buf c b s) = arg_bufs s"
  by (cases c; simp)+

lemma read_buffer_frame:
  "SZ (read_buffer E s) = SZ s \<and> v1 (read_buffer E s) = v1 s \<and> v2 (read_buffer E s) = v2 s \<and>
   length (v_out (read_buffer E s)) = length (v_out s) \<and>
   rand_calls (read_buffer E s) = rand_calls s \<and> clock_reads (read_buffer E s) = clock_reads s \<and>
   t_start (read_buffer E s) = t_start s \<and>
   trace (read_buffer E s) = trace s @ [Call (EnqueueReadBuffer V_out (buf_bytes (SZ s)))]"
  by (simp add: read_buffer_def Let_def emit_def buf_bytes_def split: option.splits)

lemma run_kernel_frame:
  "SZ (run_kernel s) = SZ s \<and> v1 (run_kernel s) = v1 s \<and> v2 (run_kernel s) = v2 s \<and>
   v_out (run_kernel s) = v_out s \<and> trace (run_kernel s) = trace s \<and>
   rand_calls (run_kernel s) = rand_calls s \<and> clock_reads (run_kernel s) = clock_reads s \<and>
   t_start (run_kernel s) = t_start s"
  by (simp add: run_kernel_def split: option.splits)

lemma enqueue_kernel_frame:
  "SZ (enqueue_kernel E g s) = SZ s \<and> v1 (enqueue_kernel E g s) = v1 s \<and>
   v2 (enqueue_kernel E g s) = v2 s \<and> v_out (enqueue_kernel E g s) = v_out s \<and>
   rand_calls (enqueue_kernel E g s) = rand_calls s \<and>
   clock_reads (enqueue_kernel E g s) = clock_reads s \<and>
   t_start (enqueue_kernel E g s) = t_start s \<and>
   trace (enqueue_kernel E g s) = trace s @ [Call (EnqueueNDRangeKernel g)]"
  by (simp add: enqueue_kernel_def Let_def run_kernel_frame) (simp add: emit_def)

lemma main_timed_Running:
  assumes "length (v_out s) = nat (sint (SZ s))"
  shows "\<exists>s'. main_timed E s = Running s' \<and> SZ s' = SZ s \<and> v1 s' = v1 s \<and> v2 s' = v2 s \<and>
     length (v_out s') = length (v_out s) \<and>
     t_start s' = clock E (clock_reads s) \<and> t_stop s' = clock E (Suc (clock_reads s)) \<and>
     trace s' = trace s @ timed_calls (SZ s) @ render (v_out s') @ [Call Clock_now]"
proof -
  define s1 where "s1 = (emit (Call Clock_now) s)\<lparr>clock_reads := Suc (clock_reads s), t_start := clock E (clock_reads s)\<rparr>"
  define s4 where "s4 = read_buffer E (emit (Call WaitForEvents) (enqueue_kernel E (scast (SZ s1)) s1))"
  have f1: "SZ s1 = SZ s" "v_out s1 = v_out s" "trace s1 = trace s @ [Call Clock_now]"
    "v1 s1 = v1 s" "v2 s1 = v2 s" "clock_reads s1 = Suc (clock_reads s)"
    by (simp_all add: s1_def emit_def)
  have f4: "SZ s4 = SZ s" "length (v_out s4) = length (v_out s)" "v1 s4 = v1 s" "v2 s4 = v2 s"
    "clock_reads s4 = Suc (clock_reads s)"
    "trace s4 = trace s @ timed_calls (SZ s)"
    unfolding s4_def
    by (simp_all add: read_buffer_frame enqueue_kernel_frame emit_def f1 timed_calls_def)
  have t4: "t_start s4 = clock E (clock_reads s)"
    unfolding s4_def
    by (simp add: read_buffer_frame enqueue_kernel_frame emit_def) (simp add: s1_def)
  have len: "length (v_out s4) = nat (sint (SZ s))" using assms f4 by simp
  have mt: "main_timed E s =
      seq (print (v_out s4) (SZ s4) s4)
        (\<lambda>s5. case now E s5 of (stop, s6) \<Rightarrow> Running (s6\<lparr>t_stop := stop\<rparr>))"
    by (simp add: main_timed_def now_def Let_def s4_def s1_def)
  have pe: "print (v_out s4) (SZ s4) s4 = Running (s4\<lparr>trace := trace s4 @ render (v_out s4)\<rparr>)"
    unfolding f4(1) by (rule print_eq [OF len])
  show ?thesis
    unfolding mt pe using f4 t4 by (simp add: now_def emit_def)
qed

lemma main_setup_cases:
  obtains (stopped) out t where "setup_main E s = Stopped out t" "main_setup E s = Stopped out t"
  | (running) s1 s3 where "setup_main E s = Running s1" "main_setup E s = Running s3"
      "same_data s s3" "0 \<le> err s3" "trace s3 = trace s1 @ memory_calls (SZ s)"
proof (cases "setup_main E s")
  case (Stopped out t)
  then have "main_setup E s = Stopped out t" by (simp add: main_setup_def)
  with Stopped show ?thesis by (rule stopped)
next
  case (Running s1)
  have d1: "same_data s s1" using setup_frame [of s E "''./vector_ops_ocl.cl''" "''vector_add_ocl''"] Running by simp
  have e1: "0 \<le> err s1" using Running by (rule setup_err)
  obtain s2 where s2: "setup_kernel_memory E s1 = Running s2" "same_data s1 s2" "err s2 = err s1"
      "trace s2 = trace s1 @
          [Call (CreateBuffer V1 (buf_bytes (SZ s1))), Call (CreateBuffer V2 (buf_bytes (SZ s1))),
           Call (CreateBuffer V_out (buf_bytes (SZ s1))),
           Call (EnqueueWriteBuffer V1 (buf_bytes (SZ s1))),
           Call (EnqueueWriteBuffer V2 (buf_bytes (SZ s1)))]"
    using setup_kernel_memory_Running [of E s1] by blast
  have e2: "0 \<le> err s2" using e1 s2 by simp
  obtain s3 where s3: "copy_kernel_args E s2 = Running s3" "same_data s2 s3" "err s3 = err s2"
      "trace s3 = trace s2 @
          [Call (SetKernelArg 0), Call (SetKernelArg 1), Call (SetKernelArg 2), Call (SetKernelArg 3)]"
    using copy_kernel_args_Running [OF e2, of E] by blast
  have m: "main_setup E s = Running s3"
    using Running s2(1) s3(1) by (simp add: main_setup_def)
  have d3: "same_data s s3" using d1 s2(2) s3(2) by (simp add: same_data_def)
  have sz: "SZ s1 = SZ s" using d1 by (simp add: same_data_def)
  have tr: "trace s3 = trace s1 @ memory_calls (SZ s)"
    using s2(4) s3(4) sz by (simp add: memory_calls_def)
  show ?thesis using Running m d3 _ tr
  proof (rule running)
    show "0 \<le> err s3" using e2 s3 by simp
  qed
qed

lemma inputs_state_facts:
  "SZ (inputs_state E N) = N" "length (v_out (inputs_state E N)) = nat (sint N)"
  "v1 (inputs_state E N) = rand_vec E 0 (nat (sint N))"
  "v2 (inputs_state E N) = rand_vec E (nat (sint N)) (nat (sint N))"
  "clock_reads (inputs_state E N) = 0"
  "trace (inputs_state E N) =
     [Call (Malloc V1 (vec_bytes N)), Call (Malloc V2 (vec_bytes N)), Call (Malloc V_out (vec_bytes N))]
       @ render (rand_vec E 0 (nat (sint N))) @ render (rand_vec E (nat (sint N)) (nat (sint N)))"
  by (simp_all add: inputs_state_def initial_state_def)

lemma main_report_eq:
  "main_report s = Stopped (Exit 0)
     (s\<lparr>trace := trace s @ time_line (t_stop s - t_start s) # release_calls\<rparr>)"
  by (simp add: main_report_def free_memory_def emit_def time_line_def release_calls_def)

text \<open>The three ways a run can go.\<close>

lemma main_cases:
  obtains (crashed) t where "main E argv = Stopped Crash t"
      "main_inputs E argv initial_state = Stopped Crash t"
  | (aborted) out t where "main_inputs E argv initial_state = Running (inputs_state E (chosen_size argv))"
      "setup_main E (inputs_state E (chosen_size argv)) = Stopped out t"
      "main E argv = Stopped out t"
  | (completed) s1 s3 s4 where
      "main_inputs E argv initial_state = Running (inputs_state E (chosen_size argv))"
      "setup_main E (inputs_state E (chosen_size argv)) = Running s1"
      "main_setup E (inputs_state E (chosen_size argv)) = Running s3"
      "main_timed E s3 = Running s4"
      "main E argv = Stopped (Exit 0)
         (s4\<lparr>trace := trace s4 @ time_line (t_stop s4 - t_start s4) # release_calls\<rparr>)"
      "SZ s4 = chosen_size argv"
      "v1 s4 = rand_vec E 0 (nat (sint (chosen_size argv)))"
      "v2 s4 = rand_vec E (nat (sint (chosen_size argv))) (nat (sint (chosen_size argv)))"
      "length (v_out s4) = nat (sint (chosen_size argv))"
      "t_start s4 = clock E 0" "t_stop s4 = clock E 1"
      "trace s4 = trace s1 @ memory_calls (chosen_size argv) @ timed_calls (chosen_size argv)
          @ render (v_out s4) @ [Call Clock_now]"
proof (cases "main_inputs E argv initial_state")
  case (Stopped out t)
  then have "out = Crash" by (simp add: main_inputs_eq split: if_splits)
  with Stopped show ?thesis by (intro crashed [of t]) (simp_all add: main_def)
next
  case (Running s0)
  then have s0: "s0 = inputs_state E (chosen_size argv)"
    by (simp add: main_inputs_eq split: if_splits)
  let ?N = "chosen_size argv"
  let ?s0 = "inputs_state E ?N"
  have R: "main_inputs E argv initial_state = Running ?s0" using Running s0 by simp
  show ?thesis
  proof (cases E ?s0 rule: main_setup_cases)
    case (stopped out t)
    then have "main E argv = Stopped out t" using R by (simp add: main_def)
    with R stopped(1) show ?thesis by (rule aborted)
  next
    case (running s1 s3)
    have d: "SZ s3 = ?N" "v1 s3 = rand_vec E 0 (nat (sint ?N))"
        "v2 s3 = rand_vec E (nat (sint ?N)) (nat (sint ?N))"
        "length (v_out s3) = nat (sint (SZ s3))" "clock_reads s3 = 0"
      using running(3) by (simp_all add: same_data_def inputs_state_facts)
    obtain s4 where s4: "main_timed E s3 = Running s4" "SZ s4 = SZ s3" "v1 s4 = v1 s3" "v2 s4 = v2 s3"
        "length (v_out s4) = length (v_out s3)"
        "t_start s4 = clock E (clock_reads s3)" "t_stop s4 = clock E (Suc (clock_reads s3))"
        "trace s4 = trace s3 @ timed_calls (SZ s3) @ render (v_out s4) @ [Call Clock_now]"
      using main_timed_Running [OF d(4), of E] by blast
    have m: "main E argv = Stopped (Exit 0)
         (s4\<lparr>trace := trace s4 @ time_line (t_stop s4 - t_start s4) # release_calls\<rparr>)"
      using R running(2) s4(1) by (simp add: main_def main_report_eq)
    show ?thesis
      using R running(1,2) s4(1) m
    proof (rule completed)
      show "SZ s4 = ?N" using s4 d by simp
      show "v1 s4 = rand_vec E 0 (nat (sint ?N))" using s4 d by simp
      show "v2 s4 = rand_vec E (nat (sint ?N)) (nat (sint ?N))" using s4 d by simp
      show "length (v_out s4) = nat (sint ?N)" using s4 d by simp
      show "t_start s4 = clock E 0" using s4 d by simp
      show "t_stop s4 = clock E 1" using s4 d by simp
      show "trace s4 = trace s1 @ memory_calls ?N @ timed_calls ?N @ render (v_out s4) @ [Call Clock_now]"
        using s4(8) running(5) d(1) by (simp add: inputs_state_facts)
    qed
  qed
qed

subsection \<open>Byte counts\<close>

lemma unat_buf:
  assumes "0 \<le> sint (N :: 32 word)"
  shows "unat ((scast N :: 64 word) * 4) = nat (sint N) * 4"
proof -
  have b: "sint N < 2 ^ 31" using sint_lt [of N] by simp
  have e: "(scast N :: 64 word) * 4 = word_of_int (sint N * 4)" by simp
  have t: "take_bit 64 (sint N * 4) = sint N * 4"
    by (rule take_bit_int_eq_self) (use assms b in auto)
  have "unat ((scast N :: 64 word) * 4) = nat (take_bit 64 (sint N * 4))"
    unfolding e by (simp only: unsigned_of_int) simp
  then show ?thesis using assms by (simp add: t nat_mult_distrib)
qed

lemma words_of_buf_bytes:
  "0 \<le> sint (N :: 32 word) \<Longrightarrow> words_of_bytes (scast N * sizeof_int) = nat (sint N)"
  by (simp add: words_of_bytes_def sizeof_int_def unat_buf)

subsection \<open>Device selection, buffers, teardown on abort\<close>

lemma device_requests_append [simp]:
  "device_requests (xs @ ys) = device_requests xs @ device_requests ys"
  by (simp add: device_requests_def)

text \<open>
  Claim C4. Once the platform is identified, \<open>create_device\<close> asks for a GPU first. It
  asks for a CPU exactly when the GPU request returned \<open>CL_DEVICE_NOT_FOUND\<close>, once and
  after that answer. It goes on exactly when the GPU request, or else the CPU request of
  the fallback, reported success; otherwise the run ends with exit code 1. OpenCL
  reports success as 0 and every error as a negative code, which is what the two
  premises on the device requests say.
\<close>

theorem create_device_fallback:
  assumes "status E GetPlatformIDs = CL_SUCCESS"
    and "status E (GetDeviceIDs CL_DEVICE_TYPE_GPU) \<le> 0"
    and "status E (GetDeviceIDs CL_DEVICE_TYPE_CPU) \<le> 0"
  shows "device_requests (trace (final (create_device E s))) =
           device_requests (trace s) @
             (CL_DEVICE_TYPE_GPU #
               (if status E (GetDeviceIDs CL_DEVICE_TYPE_GPU) = CL_DEVICE_NOT_FOUND
                then [CL_DEVICE_TYPE_CPU] else []))
         \<and> outcome_of (create_device E s) =
             (if status E (GetDeviceIDs CL_DEVICE_TYPE_GPU) = CL_SUCCESS
                 \<or> (status E (GetDeviceIDs CL_DEVICE_TYPE_GPU) = CL_DEVICE_NOT_FOUND
                     \<and> status E (GetDeviceIDs CL_DEVICE_TYPE_CPU) = CL_SUCCESS)
              then None else Some (Exit 1))"
  using assms
  by (auto simp add: create_device_def Let_def emit_def device_requests_def CL_SUCCESS_def
        CL_DEVICE_NOT_FOUND_def)

theorem create_device_fallback_witness:
  "device_requests (trace (final (create_device (env_fail (GetDeviceIDs CL_DEVICE_TYPE_GPU) (- 1)) initial_state)))
     = [CL_DEVICE_TYPE_GPU, CL_DEVICE_TYPE_CPU]
   \<and> outcome_of (create_device (env_fail (GetDeviceIDs CL_DEVICE_TYPE_GPU) (- 1)) initial_state) = None"
  using create_device_fallback [of "env_fail (GetDeviceIDs CL_DEVICE_TYPE_GPU) (- 1)" initial_state]
  by (simp add: env_fail_def env_ok_def CL_SUCCESS_def CL_DEVICE_NOT_FOUND_def initial_state_def
        device_requests_def)

text \<open>
  Claim C6, as stated, fails. With the creation of the first buffer failing
  (\<open>CL_MEM_OBJECT_ALLOCATION_FAILURE\<close>, -4), and likewise with the second upload failing
  (\<open>CL_OUT_OF_RESOURCES\<close>, -5), the run ends with exit code 0 and nothing was written by
  \<open>perror\<close>.
\<close>

theorem allocation_failure_silent:
  "status (env_fail (CreateBuffer V1 4) (- 4)) (CreateBuffer V1 4) < 0
   \<and> Call (CreateBuffer V1 4) \<in> set (trace (final (main (env_fail (CreateBuffer V1 4) (- 4)) [''prog'', ''1''])))
   \<and> outcome_of (main (env_fail (CreateBuffer V1 4) (- 4)) [''prog'', ''1'']) = Some (Exit 0)
   \<and> filter is_perror (trace (final (main (env_fail (CreateBuffer V1 4) (- 4)) [''prog'', ''1'']))) = []
   \<and> status (env_fail (EnqueueWriteBuffer V2 4) (- 5)) (EnqueueWriteBuffer V2 4) < 0
   \<and> Call (EnqueueWriteBuffer V2 4) \<in> set (trace (final (main (env_fail (EnqueueWriteBuffer V2 4) (- 5)) [''prog'', ''1''])))
   \<and> outcome_of (main (env_fail (EnqueueWriteBuffer V2 4) (- 5)) [''prog'', ''1'']) = Some (Exit 0)
   \<and> filter is_perror (trace (final (main (env_fail (EnqueueWriteBuffer V2 4) (- 5)) [''prog'', ''1'']))) = []"
  by code_simp

text \<open>
  Claim C6, amended. Whatever the platform answers, \<open>setup_kernel_memory\<close> makes the
  three creation calls and the two uploads, each with \<open>SZ * sizeof(int)\<close> bytes, prints
  nothing and returns to its caller.
\<close>

theorem setup_kernel_memory_unchecked:
  "\<exists>s'. setup_kernel_memory E s = Running s' \<and>
        trace s' = trace s @
          [Call (CreateBuffer V1 (buf_bytes (SZ s))), Call (CreateBuffer V2 (buf_bytes (SZ s))),
           Call (CreateBuffer V_out (buf_bytes (SZ s))),
           Call (EnqueueWriteBuffer V1 (buf_bytes (SZ s))),
           Call (EnqueueWriteBuffer V2 (buf_bytes (SZ s)))]"
  using setup_kernel_memory_Running [of E s] by blast

text \<open>
  Claim C5, as stated, fails. When the kernel source cannot be opened, the context has
  been created with success, the run ends with exit code 1, and the context is never
  released.
\<close>

theorem abort_leaks_context:
  "status (env_fail (Fopen ''./vector_ops_ocl.cl'') 1) CreateContext = CL_SUCCESS
   \<and> Call CreateContext \<in> set (trace (final (main (env_fail (Fopen ''./vector_ops_ocl.cl'') 1) [''prog'', ''1''])))
   \<and> count_list (trace (final (main (env_fail (Fopen ''./vector_ops_ocl.cl'') 1) [''prog'', ''1''])))
        (Call ReleaseContext) = 0
   \<and> outcome_of (main (env_fail (Fopen ''./vector_ops_ocl.cl'') 1) [''prog'', ''1'']) = Some (Exit 1)"
  by code_simp

subsection \<open>The run on a platform where every call succeeds\<close>

lemma copy_words_all:
  "length src = n \<Longrightarrow> length dst = n \<Longrightarrow> copy_words n src dst = src"
  by (simp add: copy_words_def list_eq_iff_nth_eq)

lemma vector_add_ocl_eq:
  assumes "0 \<le> sint n" "length a = nat (sint n)" "length b = nat (sint n)" "length out = nat (sint n)"
  shows "vector_add_ocl n a b out = map2 (+) a b"
proof (rule nth_equalityI)
  show "length (vector_add_ocl n a b out) = length (map2 (+) a b)"
    using assms by (simp add: vector_add_ocl_def)
next
  fix i assume "i < length (vector_add_ocl n a b out)"
  then have i: "i < nat (sint n)" using assms by (simp add: vector_add_ocl_def)
  then have "int i < sint n" by linarith
  then show "vector_add_ocl n a b out ! i = map2 (+) a b ! i"
    using i assms by (simp add: vector_add_ocl_def)
qed

lemma setup_ok:
  assumes "\<forall>c. status E c = CL_SUCCESS"
  shows "\<exists>s1. setup_openCL_device_context_queue_kernel E f k s = Running s1 \<and> same_data s s1
           \<and> err s1 = 0"
  using assms by (simp add: setup_defs same_data_def CL_SUCCESS_def CL_DEVICE_NOT_FOUND_def)

lemma memory_ok:
  assumes "\<forall>c. status E c = CL_SUCCESS" "0 \<le> sint (SZ s)"
    "length (v1 s) = nat (sint (SZ s))" "length (v2 s) = nat (sint (SZ s))"
  shows "\<exists>s2 g. setup_kernel_memory E s = Running s2 \<and> same_data s s2 \<and> err s2 = err s \<and>
           bufV1 s2 = Some (v1 s) \<and> bufV2 s2 = Some (v2 s) \<and> bufV_out s2 = Some g \<and>
           length g = nat (sint (SZ s))"
  using assms
  by (simp add: mem_defs same_data_def words_of_buf_bytes copy_words_all)

lemma args_ok:
  assumes "\<forall>c. status E c = CL_SUCCESS" "0 \<le> err s"
  shows "\<exists>s3. copy_kernel_args E s = Running s3 \<and> same_data s s3 \<and>
           bufV1 s3 = bufV1 s \<and> bufV2 s3 = bufV2 s \<and> bufV_out s3 = bufV_out s \<and>
           arg_n s3 = Some (SZ s) \<and> arg_bufs s3 1 = Some V1 \<and> arg_bufs s3 2 = Some V2 \<and>
           arg_bufs s3 3 = Some V_out"
  using assms by (simp add: arg_defs same_data_def)

lemma timed_ok:
  assumes ok: "\<forall>c. status E c = CL_SUCCESS" and n: "0 \<le> sint (SZ s)"
    and bufs: "bufV1 s = Some a" "bufV2 s = Some b" "bufV_out s = Some g"
    and lens: "length a = nat (sint (SZ s))" "length b = nat (sint (SZ s))"
      "length g = nat (sint (SZ s))" "length (v_out s) = nat (sint (SZ s))"
    and args: "arg_n s = Some (SZ s)" "arg_bufs s 1 = Some V1" "arg_bufs s 2 = Some V2"
      "arg_bufs s 3 = Some V_out"
  shows "\<exists>s4. main_timed E s = Running s4 \<and> SZ s4 = SZ s \<and> v1 s4 = v1 s \<and> v2 s4 = v2 s \<and>
           v_out s4 = map2 (+) a b"
proof -
  have len: "length (map2 (+) a b) = nat (sint (SZ s))" using lens by simp
  have cw: "copy_words (nat (sint (SZ s))) (map2 (+) a b) (v_out s) = map2 (+) a b"
    using len lens by (intro copy_words_all) simp_all
  show ?thesis
    using ok n bufs args lens
    by (simp add: main_timed_def now_def Let_def enqueue_kernel_def run_kernel_def read_buffer_def
          emit_def words_of_buf_bytes vector_add_ocl_eq cw print_eq [where sz = "SZ s"])
qed

lemma pipeline_adds:
  assumes ok: "\<forall>c. status E c = CL_SUCCESS" and n: "0 \<le> sint (SZ s)"
    and lens: "length (v1 s) = nat (sint (SZ s))" "length (v2 s) = nat (sint (SZ s))"
      "length (v_out s) = nat (sint (SZ s))"
  shows "\<exists>s'. seq (main_setup E s) (main_timed E) = Running s' \<and> SZ s' = SZ s \<and>
           v1 s' = v1 s \<and> v2 s' = v2 s \<and> v_out s' = map2 (+) (v1 s) (v2 s)"
proof -
  obtain s1 where s1: "setup_main E s = Running s1" "same_data s s1" "err s1 = 0"
    using setup_ok [OF ok] by blast
  have d1: "SZ s1 = SZ s" "v1 s1 = v1 s" "v2 s1 = v2 s" "v_out s1 = v_out s"
    using s1(2) by (simp_all add: same_data_def)
  obtain s2 g where s2: "setup_kernel_memory E s1 = Running s2" "same_data s1 s2" "err s2 = err s1"
      "bufV1 s2 = Some (v1 s1)" "bufV2 s2 = Some (v2 s1)" "bufV_out s2 = Some g"
      "length g = nat (sint (SZ s1))"
    using memory_ok [OF ok, of s1] n lens d1 by auto
  have d2: "SZ s2 = SZ s" "v1 s2 = v1 s" "v2 s2 = v2 s" "v_out s2 = v_out s"
    using s2(2) d1 by (simp_all add: same_data_def)
  obtain s3 where s3: "copy_kernel_args E s2 = Running s3" "same_data s2 s3"
      "bufV1 s3 = bufV1 s2" "bufV2 s3 = bufV2 s2" "bufV_out s3 = bufV_out s2"
      "arg_n s3 = Some (SZ s2)" "arg_bufs s3 1 = Some V1" "arg_bufs s3 2 = Some V2"
      "arg_bufs s3 3 = Some V_out"
    using args_ok [OF ok, of s2] s2(3) s1(3) by auto
  have d3: "SZ s3 = SZ s" "v1 s3 = v1 s" "v2 s3 = v2 s" "v_out s3 = v_out s"
    using s3(2) d2 by (simp_all add: same_data_def)
  have m: "main_setup E s = Running s3"
    using s1(1) s2(1) s3(1) by (simp add: main_setup_def)
  obtain s4 where s4: "main_timed E s3 = Running s4" "SZ s4 = SZ s3" "v1 s4 = v1 s3" "v2 s4 = v2 s3"
      "v_out s4 = map2 (+) (v1 s) (v2 s)"
    using timed_ok [OF ok, of s3 "v1 s" "v2 s" g] n lens s2 s3 d1 d2 d3 by auto
  show ?thesis using m s4 d3 by simp
qed

text \<open>
  Claim C1. On a platform where every call succeeds, for every size \<open>N \<ge> 1\<close> and all
  input vectors \<open>A\<close> and \<open>B\<close> of \<open>N\<close> elements, set-up, launch, wait and read-back leave
  \<open>out[i] = A[i] + B[i]\<close> for every \<open>i < N\<close> in the host's output vector. The elements
  are 32-bit integers and so is the sum.
\<close>

theorem vector_add_correct:
  assumes "\<forall>c. status E c = CL_SUCCESS" and "1 \<le> sint N" and "SZ s = N"
    and "v1 s = A" and "v2 s = B"
    and "length A = nat (sint N)" and "length B = nat (sint N)"
    and "length (v_out s) = nat (sint N)"
  shows "\<exists>s'. seq (main_setup E s) (main_timed E) = Running s' \<and>
           length (v_out s') = nat (sint N) \<and>
           (\<forall>i < nat (sint N). v_out s' ! i = A ! i + B ! i)"
proof -
  have n: "0 \<le> sint (SZ s)" using assms by simp
  obtain s' where s': "seq (main_setup E s) (main_timed E) = Running s'"
      "v_out s' = map2 (+) (v1 s) (v2 s)"
    using pipeline_adds [OF assms(1) n] assms by auto
  have "length (v_out s') = nat (sint N)" using s'(2) assms by simp
  moreover have "\<forall>i < nat (sint N). v_out s' ! i = A ! i + B ! i"
    using s'(2) assms by simp
  ultimately show ?thesis using s'(1) by blast
qed

theorem vector_add_correct_witness:
  "\<exists>s'. seq (main_setup env_ok (initial_state\<lparr>SZ := 2, v1 := [1, 2], v2 := [30, 40], v_out := [0, 0]\<rparr>))
            (main_timed env_ok) = Running s' \<and>
        length (v_out s') = nat (sint (2 :: c_int)) \<and>
        (\<forall>i < nat (sint (2 :: c_int)). v_out s' ! i = [1, 2] ! i + [30, 40] ! i)"
  using vector_add_correct [of env_ok 2
      "initial_state\<lparr>SZ := 2, v1 := [1, 2], v2 := [30, 40], v_out := [0, 0]\<rparr>" "[1, 2]" "[30, 40]"]
  by (simp add: env_ok_def CL_SUCCESS_def)

subsection \<open>Properties of whole runs\<close>

lemma pr_kinds [simp]: "\<not> is_release (pr x)" "is_printf (pr x)" "sized_ok N (pr x)"
  by (simp_all add: pr_def)

lemma render_filters [simp]:
  "filter is_release (render A) = []" "filter is_printf (render A) = render A"
  "list_all (sized_ok N) (render A)"
  by (auto simp add: render_def ellipsis_def separator_def list_all_iff)

lemma calls_filters [simp]:
  "filter is_release (memory_calls N) = []" "filter is_printf (memory_calls N) = []"
  "list_all (sized_ok N) (memory_calls N)"
  "filter is_release (timed_calls N) = []" "filter is_printf (timed_calls N) = []"
  "list_all (sized_ok N) (timed_calls N)"
  "filter is_release release_calls = release_calls" "filter is_printf release_calls = []"
  "list_all (sized_ok N) release_calls"
  "\<not> is_release (time_line d)" "is_printf (time_line d)" "sized_ok N (time_line d)"
  by (simp_all add: memory_calls_def timed_calls_def release_calls_def time_line_def)

lemma inputs_state_filters [simp]:
  "filter is_release (trace (inputs_state E N)) = []"
  "filter is_printf (trace (inputs_state E N)) =
     render (rand_vec E 0 (nat (sint N))) @ render (rand_vec E (nat (sint N)) (nat (sint N)))"
  "list_all (sized_ok N) (trace (inputs_state E N))"
  "hd (trace (inputs_state E N)) = Call (Malloc V1 (vec_bytes N))"
  "trace (inputs_state E N) \<noteq> []"
  by (simp_all add: inputs_state_facts)

lemma inputs_crash:
  assumes "main_inputs E argv initial_state = Stopped out t"
  shows "out = Crash \<and> 0 < sint (chosen_size argv) \<and> filter is_release (trace t) = [] \<and>
         list_all (sized_ok (chosen_size argv)) (trace t) \<and>
         hd (trace t) = Call (Malloc V1 (vec_bytes (chosen_size argv))) \<and> trace t \<noteq> [] \<and>
         (\<exists>v. status E (Malloc v (vec_bytes (chosen_size argv))) \<noteq> 0)"
  using assms by (auto simp add: main_inputs_eq split: if_splits)

lemma setup_sized:
  "list_all (sized_ok N) (trace s) \<Longrightarrow>
   list_all (sized_ok N) (trace (final (setup_openCL_device_context_queue_kernel E f k s)))"
  by (simp add: setup_defs)

lemma setup_crash:
  "outcome_of (setup_openCL_device_context_queue_kernel E f k s) = Some Crash \<Longrightarrow>
   status E (MallocTmp Program_buffer) \<noteq> 0 \<or> status E (MallocTmp Program_log) \<noteq> 0"
  by (auto simp add: setup_defs split: if_splits)

lemma setup_hd:
  "trace s \<noteq> [] \<Longrightarrow>
   hd (trace (final (setup_openCL_device_context_queue_kernel E f k s))) = hd (trace s) \<and>
   trace (final (setup_openCL_device_context_queue_kernel E f k s)) \<noteq> []"
  by (simp add: setup_defs)

subsection \<open>The device buffers along a run\<close>

lemma dev_buf_set_dev_buf:
  "dev_buf u (set_dev_buf c b s) = (if u = c then b else dev_buf u s)"
  by (cases u; cases c; simp)

lemma dev_buf_updates [simp]:
  "dev_buf u (s\<lparr>trace := a\<rparr>) = dev_buf u s" "dev_buf u (s\<lparr>arg_n := b\<rparr>) = dev_buf u s"
  "dev_buf u (s\<lparr>arg_bufs := c\<rparr>) = dev_buf u s" "dev_buf u (s\<lparr>clock_reads := d\<rparr>) = dev_buf u s"
  "dev_buf u (s\<lparr>t_start := e\<rparr>) = dev_buf u s" "dev_buf u (s\<lparr>t_stop := f\<rparr>) = dev_buf u s"
  "dev_buf u (s\<lparr>v_out := g\<rparr>) = dev_buf u s" "dev_buf u (s\<lparr>err := h\<rparr>) = dev_buf u s"
  by (cases u; simp)+

lemma create_buffer_buf:
  "dev_buf u (create_buffer E v s) =
     (if u = v
      then (if status E (CreateBuffer v (buf_bytes (SZ s))) = CL_SUCCESS
            then Some (map (dev_garbage E v) [0..<words_of_bytes (buf_bytes (SZ s))]) else None)
      else dev_buf u s)"
  by (simp add: create_buffer_def Let_def emit_def dev_buf_set_dev_buf buf_bytes_def)

lemma create_buffer_SZ [simp]: "SZ (create_buffer E v s) = SZ s"
  by (simp add: create_buffer_def Let_def emit_def)

lemma write_buffer_len: "buf_len u (write_buffer E v s) = buf_len u s"
  by (auto simp add: write_buffer_def Let_def emit_def buf_len_def dev_buf_set_dev_buf
        split: option.splits)

lemma setup_kernel_memory_len:
  assumes "setup_kernel_memory E s = Running s'"
  shows "buf_len u s' =
     (if status E (CreateBuffer u (buf_bytes (SZ s))) = CL_SUCCESS
      then Some (words_of_bytes (buf_bytes (SZ s))) else None)"
proof -
  have "s' = write_buffer E V2 (write_buffer E V1
       (create_buffer E V_out (create_buffer E V2 (create_buffer E V1 s))))"
    using assms by (simp add: setup_kernel_memory_def)
  then have "buf_len u s' =
      buf_len u (create_buffer E V_out (create_buffer E V2 (create_buffer E V1 s)))"
    by (simp add: write_buffer_len)
  also have "\<dots> = (if status E (CreateBuffer u (buf_bytes (SZ s))) = CL_SUCCESS
      then Some (words_of_bytes (buf_bytes (SZ s))) else None)"
    by (cases u) (simp_all add: buf_len_def create_buffer_buf)
  finally show ?thesis .
qed

lemma copy_kernel_args_len:
  "copy_kernel_args E s = Running s' \<Longrightarrow> buf_len u s' = buf_len u s"
  by (auto simp add: arg_defs buf_len_def split: if_splits)

lemma setup_bufs:
  "setup_openCL_device_context_queue_kernel E f k s = Running s' \<Longrightarrow> dev_buf u s' = dev_buf u s"
  by (auto simp add: setup_defs split: if_splits)

lemma run_kernel_len: "buf_len u (run_kernel s) = buf_len u s"
  by (auto simp add: run_kernel_def buf_len_def dev_buf_set_dev_buf vector_add_ocl_def
        split: option.splits)

lemma enqueue_kernel_len: "buf_len u (enqueue_kernel E g s) = buf_len u s"
  by (simp add: enqueue_kernel_def Let_def run_kernel_len) (simp add: buf_len_def emit_def)

lemma read_buffer_len: "buf_len u (read_buffer E s) = buf_len u s"
  by (simp add: read_buffer_def Let_def emit_def buf_len_def split: option.splits)

lemma main_timed_len:
  assumes "length (v_out s) = nat (sint (SZ s))" and "main_timed E s = Running s'"
  shows "buf_len u s' = buf_len u s"
proof -
  define s1 where "s1 = (emit (Call Clock_now) s)\<lparr>clock_reads := Suc (clock_reads s), t_start := clock E (clock_reads s)\<rparr>"
  define s4 where "s4 = read_buffer E (emit (Call WaitForEvents) (enqueue_kernel E (scast (SZ s1)) s1))"
  have b1: "buf_len u s1 = buf_len u s" by (simp add: s1_def buf_len_def emit_def)
  have b4: "buf_len u s4 = buf_len u s"
    unfolding s4_def using b1
    by (simp add: read_buffer_len) (simp add: buf_len_def emit_def enqueue_kernel_len [unfolded buf_len_def])
  have f4: "SZ s4 = SZ s" "length (v_out s4) = length (v_out s)"
    unfolding s4_def
    by (simp_all add: read_buffer_frame enqueue_kernel_frame emit_def s1_def)
  have len: "length (v_out s4) = nat (sint (SZ s))" using assms(1) f4 by simp
  have mt: "main_timed E s =
      seq (print (v_out s4) (SZ s4) s4)
        (\<lambda>s5. case now E s5 of (stop, s6) \<Rightarrow> Running (s6\<lparr>t_stop := stop\<rparr>))"
    by (simp add: main_timed_def now_def Let_def s4_def s1_def)
  have pe: "print (v_out s4) (SZ s4) s4 = Running (s4\<lparr>trace := trace s4 @ render (v_out s4)\<rparr>)"
    unfolding f4(1) by (rule print_eq [OF len])
  have "s' = (s4\<lparr>trace := trace s4 @ render (v_out s4)\<rparr>)\<lparr>trace := trace s4 @ render (v_out s4) @ [Call Clock_now],
       clock_reads := Suc (clock_reads s4), t_stop := clock E (clock_reads s4)\<rparr>"
    using assms(2) unfolding mt pe by (simp add: now_def emit_def)
  then show ?thesis using b4 by (simp add: buf_len_def)
qed

lemma create_filters [simp]:
  "filter is_create_buffer (render A) = []"
  "filter is_create_buffer (memory_calls N) =
     [Call (CreateBuffer V1 (buf_bytes N)), Call (CreateBuffer V2 (buf_bytes N)),
      Call (CreateBuffer V_out (buf_bytes N))]"
  "filter is_create_buffer (timed_calls N) = []"
  "filter is_create_buffer release_calls = []"
  "\<not> is_create_buffer (time_line d)"
  "filter is_create_buffer (trace (inputs_state E N)) = []"
  by (auto simp add: render_def pr_def ellipsis_def separator_def memory_calls_def timed_calls_def
        release_calls_def time_line_def inputs_state_facts)

lemma setup_creates:
  "filter is_create_buffer (trace (final (setup_openCL_device_context_queue_kernel E f k s)))
     = filter is_create_buffer (trace s)"
  by (simp add: setup_defs)

lemma inputs_crash_creates:
  "main_inputs E argv initial_state = Stopped out t \<Longrightarrow> filter is_create_buffer (trace t) = []"
  by (auto simp add: main_inputs_eq split: if_splits)

lemma main_setup_len:
  assumes "main_setup E s = Running s3"
  shows "buf_len u s3 =
     (if status E (CreateBuffer u (buf_bytes (SZ s))) = CL_SUCCESS
      then Some (words_of_bytes (buf_bytes (SZ s))) else None)"
proof (cases "setup_main E s")
  case (Stopped out t)
  then show ?thesis using assms by (simp add: main_setup_def)
next
  case (Running s1)
  have sz: "SZ s1 = SZ s"
    using setup_frame [of s E "''./vector_ops_ocl.cl''" "''vector_add_ocl''"] Running
    by (simp add: same_data_def)
  have b1: "dev_buf u s1 = dev_buf u s" using Running by (rule setup_bufs)
  obtain s2 where s2: "setup_kernel_memory E s1 = Running s2"
    using setup_kernel_memory_Running [of E s1] by blast
  have s3: "copy_kernel_args E s2 = Running s3"
    using assms Running s2 by (simp add: main_setup_def)
  show ?thesis
    using setup_kernel_memory_len [OF s2, of u] copy_kernel_args_len [OF s3, of u] sz by simp
qed

lemma completed_buf_len:
  assumes "outcome_of (main E argv) = Some (Exit 0)"
  shows "buf_len u (final (main E argv)) =
     (if status E (CreateBuffer u (buf_bytes (chosen_size argv))) = CL_SUCCESS
      then Some (words_of_bytes (buf_bytes (chosen_size argv))) else None)"
proof (cases E argv rule: main_cases)
  case (crashed t)
  then show ?thesis using assms by simp
next
  case (aborted out t)
  then show ?thesis
    using assms setup_outcome [of E "''./vector_ops_ocl.cl''" "''vector_add_ocl''" "inputs_state E (chosen_size argv)"]
    by auto
next
  case (completed s1 s3 s4)
  let ?s0 = "inputs_state E (chosen_size argv)"
  have b3: "buf_len u s3 =
     (if status E (CreateBuffer u (buf_bytes (chosen_size argv))) = CL_SUCCESS
      then Some (words_of_bytes (buf_bytes (chosen_size argv))) else None)"
    using main_setup_len [OF completed(3), of u] by (simp add: inputs_state_facts)
  have len3: "length (v_out s3) = nat (sint (SZ s3))"
  proof (cases E ?s0 rule: main_setup_cases)
    case (stopped out t)
    then show ?thesis using completed(3) by simp
  next
    case (running s1' s3')
    then have "s3' = s3" using completed(3) by simp
    then show ?thesis using running(3) by (simp add: same_data_def inputs_state_facts)
  qed
  have b4: "buf_len u s4 = buf_len u s3" using len3 completed(4) by (rule main_timed_len)
  show ?thesis using completed(5) b3 b4 by (simp add: buf_len_def)
qed

lemma rand_vec_cong: "rand_seq E = rand_seq E' \<Longrightarrow> rand_vec E k n = rand_vec E' k n"
  by (simp add: rand_vec_def)

lemma setup_final_data:
  "SZ (final (setup_main E s)) = SZ s \<and> v1 (final (setup_main E s)) = v1 s \<and>
   v2 (final (setup_main E s)) = v2 s \<and> v_out (final (setup_main E s)) = v_out s"
  using setup_frame [of s E "''./vector_ops_ocl.cl''" "''vector_add_ocl''"]
  by (simp add: same_data_def)

text \<open>
  Claim C5, amended. A run that reaches the end of \<open>main\<close> makes exactly the ten release
  calls of \<open>free_memory\<close>, each once and in this order: the three buffers, kernel,
  queue, program, context, the three host vectors. A run that ends any other way makes
  no release call at all.
\<close>

theorem teardown_only_at_end:
  "(outcome_of (main E argv) = Some (Exit 0) \<longrightarrow>
      filter is_release (trace (final (main E argv))) =
        [Call (ReleaseMemObject V1), Call (ReleaseMemObject V2), Call (ReleaseMemObject V_out),
         Call ReleaseKernel, Call ReleaseCommandQueue, Call ReleaseProgram, Call ReleaseContext,
         Call (Free V1), Call (Free V2), Call (Free V_out)])
   \<and> (outcome_of (main E argv) \<noteq> Some (Exit 0) \<longrightarrow>
      filter is_release (trace (final (main E argv))) = [])"
proof (cases E argv rule: main_cases)
  case (crashed t)
  then show ?thesis
    by (cases "main_inputs E argv initial_state") (auto dest: inputs_crash)
next
  case (aborted out t)
  have "out \<noteq> Exit 0"
    using setup_outcome [of E "''./vector_ops_ocl.cl''" "''vector_add_ocl''" "inputs_state E (chosen_size argv)"]
      aborted(2) by auto
  moreover have "filter is_release (trace t) = []"
    using setup_releases [of E "''./vector_ops_ocl.cl''" "''vector_add_ocl''" "inputs_state E (chosen_size argv)"]
      aborted(2) by simp
  ultimately show ?thesis using aborted(3) by simp
next
  case (completed s1 s3 s4)
  have "filter is_release (trace s1) = []"
    using setup_releases [of E "''./vector_ops_ocl.cl''" "''vector_add_ocl''" "inputs_state E (chosen_size argv)"]
      completed(2) by simp
  then show ?thesis
    using completed(5,12) by (simp add: release_calls_def)
qed

theorem teardown_only_at_end_witness:
  "outcome_of (main env_ok [''prog'', ''1'']) = Some (Exit 0)
   \<and> filter is_release (trace (final (main env_ok [''prog'', ''1'']))) =
        [Call (ReleaseMemObject V1), Call (ReleaseMemObject V2), Call (ReleaseMemObject V_out),
         Call ReleaseKernel, Call ReleaseCommandQueue, Call ReleaseProgram, Call ReleaseContext,
         Call (Free V1), Call (Free V2), Call (Free V_out)]
   \<and> outcome_of (main (env_fail CreateContext (- 6)) [''prog'', ''1'']) \<noteq> Some (Exit 0)
   \<and> filter is_release (trace (final (main (env_fail CreateContext (- 6)) [''prog'', ''1'']))) = []"
proof -
  have a: "outcome_of (main env_ok [''prog'', ''1'']) = Some (Exit 0)" by code_simp
  have b: "outcome_of (main (env_fail CreateContext (- 6)) [''prog'', ''1'']) \<noteq> Some (Exit 0)"
    by code_simp
  show ?thesis
    using a b teardown_only_at_end [of env_ok "[''prog'', ''1'']"]
      teardown_only_at_end [of "env_fail CreateContext (- 6)" "[''prog'', ''1'']"]
    by simp
qed

text \<open>
  Claim C7. \<open>print\<close>, called with a vector and its length, writes the first five
  elements, the ellipsis and the last five when the length exceeds 15, and every element
  otherwise, then the separator line. In a run that reaches the end of \<open>main\<close>, standard
  output is: input A, input B, the notice of the device fallback if it happened, the
  output vector, each printed that way, and then the line with the elapsed time between
  the two clock readings, formatted with \<open>%f\<close> and the unit ms.
\<close>

theorem print_format:
  "(length A = nat (sint sz) \<longrightarrow>
      print A sz s = Running (s\<lparr>trace := trace s @
        (if 15 < length A
         then map pr (take 5 A) @ [ellipsis] @ map pr (drop (length A - 5) A)
         else map pr A) @ [separator]\<rparr>))
   \<and> (outcome_of (main E argv) = Some (Exit 0) \<longrightarrow>
      filter is_printf (trace (final (main E argv))) =
        render (v1 (final (main E argv))) @ render (v2 (final (main E argv))) @ gpu_notice E @
        render (v_out (final (main E argv))) @
        [Printf ''Kernel Execution Time: %f ms\<newline>'' [ArgDuration (clock E 1 - clock E 0)]]
      \<and> length (v1 (final (main E argv))) = nat (sint (chosen_size argv))
      \<and> length (v2 (final (main E argv))) = nat (sint (chosen_size argv))
      \<and> length (v_out (final (main E argv))) = nat (sint (chosen_size argv)))"
proof (intro conjI impI)
  assume "length A = nat (sint sz)"
  then show "print A sz s = Running (s\<lparr>trace := trace s @
        (if 15 < length A
         then map pr (take 5 A) @ [ellipsis] @ map pr (drop (length A - 5) A)
         else map pr A) @ [separator]\<rparr>)"
    using print_eq [of A sz s] by (simp add: render_def)
next
  assume ex: "outcome_of (main E argv) = Some (Exit 0)"
  have "filter is_printf (trace (final (main E argv))) =
        render (v1 (final (main E argv))) @ render (v2 (final (main E argv))) @ gpu_notice E @
        render (v_out (final (main E argv))) @
        [Printf ''Kernel Execution Time: %f ms\<newline>'' [ArgDuration (clock E 1 - clock E 0)]]
      \<and> length (v1 (final (main E argv))) = nat (sint (chosen_size argv))
      \<and> length (v2 (final (main E argv))) = nat (sint (chosen_size argv))
      \<and> length (v_out (final (main E argv))) = nat (sint (chosen_size argv))"
  proof (cases E argv rule: main_cases)
    case (crashed t)
    then show ?thesis using ex by simp
  next
    case (aborted out t)
    then show ?thesis
      using ex setup_outcome [of E "''./vector_ops_ocl.cl''" "''vector_add_ocl''" "inputs_state E (chosen_size argv)"]
      by auto
  next
    case (completed s1 s3 s4)
    have "filter is_printf (trace s1) =
        filter is_printf (trace (inputs_state E (chosen_size argv))) @ gpu_notice E"
      using setup_printfs [OF completed(2)] by (simp add: gpu_notice_def)
    then show ?thesis
      using completed(5-12) by (simp add: time_line_def)
  qed
  then show "filter is_printf (trace (final (main E argv))) =
        render (v1 (final (main E argv))) @ render (v2 (final (main E argv))) @ gpu_notice E @
        render (v_out (final (main E argv))) @
        [Printf ''Kernel Execution Time: %f ms\<newline>'' [ArgDuration (clock E 1 - clock E 0)]]"
    and "length (v1 (final (main E argv))) = nat (sint (chosen_size argv))"
    and "length (v2 (final (main E argv))) = nat (sint (chosen_size argv))"
    and "length (v_out (final (main E argv))) = nat (sint (chosen_size argv))"
    by simp_all
qed

lemma main_completes:
  assumes "\<forall>c. status E c = CL_SUCCESS"
  shows "outcome_of (main E argv) = Some (Exit 0)"
proof (cases E argv rule: main_cases)
  case (crashed t)
  then show ?thesis using inputs_crash [of E argv Crash t] assms by (simp add: CL_SUCCESS_def)
next
  case (aborted out t)
  then show ?thesis
    using setup_ok [OF assms, of "''./vector_ops_ocl.cl''" "''vector_add_ocl''" "inputs_state E (chosen_size argv)"]
    by auto
next
  case (completed s1 s3 s4)
  then show ?thesis by simp
qed

lemma env_ok_status: "\<forall>c. status env_ok c = CL_SUCCESS"
  by (simp add: env_ok_def CL_SUCCESS_def)

theorem print_format_witness:
  "length (replicate 16 (7 :: c_int)) = nat (sint (16 :: c_int))
   \<and> print (replicate 16 7) 16 initial_state =
       Running (initial_state\<lparr>trace := map pr (replicate 5 7) @ [ellipsis] @ map pr (replicate 5 7) @ [separator]\<rparr>)
   \<and> outcome_of (main env_ok [''prog'', ''16'']) = Some (Exit 0)
   \<and> length (v_out (final (main env_ok [''prog'', ''16'']))) = 16"
proof -
  have a: "length (replicate 16 (7 :: c_int)) = nat (sint (16 :: c_int))" by simp
  have b: "outcome_of (main env_ok [''prog'', ''16'']) = Some (Exit 0)"
    using env_ok_status by (rule main_completes)
  have c: "chosen_size [''prog'', ''16''] = 16" by code_simp
  note t = print_format [of "replicate 16 7" 16 initial_state env_ok "[''prog'', ''16'']"]
  have p: "print (replicate 16 7) 16 initial_state =
       Running (initial_state\<lparr>trace := map pr (replicate 5 7) @ [ellipsis] @ map pr (replicate 5 7) @ [separator]\<rparr>)"
    using t a by (simp add: initial_state_def)
  have l: "length (v_out (final (main env_ok [''prog'', ''16'']))) = nat (sint (chosen_size [''prog'', ''16'']))"
    using t b by blast
  show ?thesis using a p b l unfolding c by simp
qed

text \<open>
  Claim C8. With \<open>N\<close> the size the run uses: every run that gets past set-up creates the
  three device buffers, each once and each with \<open>N * sizeof(int)\<close> bytes, and no other
  run creates a buffer. This byte count is the \<open>size_t\<close> value of the \<open>malloc\<close> of the
  paired host vector, and for \<open>N \<ge> 0\<close> it is \<open>N\<close> times four without wrap-around. A
  buffer whose creation the platform accepts holds the elements that fit this byte count,
  for \<open>N \<ge> 0\<close> as many as its host vector has; one whose creation fails does not exist.
  Every other sized call of a run (host allocation, transfer, launch) carries the size
  computed from \<open>N\<close> as well. A run with \<open>N = 0\<close> is not rejected: provided the two
  temporary allocations of \<open>build_program\<close> succeed it does not crash, and when it reaches
  the end of \<open>main\<close> it has launched the kernel over zero work items and its output
  vector is empty. An external call is taken to return with a status, whatever handle
  it is given.
\<close>

theorem buffer_sizes:
  "list_all (sized_ok (chosen_size argv)) (trace (final (main E argv)))
   \<and> buf_bytes (chosen_size argv) = vec_bytes (chosen_size argv)
   \<and> (0 \<le> sint (chosen_size argv) \<longrightarrow>
        unat (buf_bytes (chosen_size argv)) = nat (sint (chosen_size argv)) * unat sizeof_int)
   \<and> (outcome_of (main E argv) = Some (Exit 0) \<longrightarrow>
        filter is_create_buffer (trace (final (main E argv))) =
          [Call (CreateBuffer V1 (buf_bytes (chosen_size argv))),
           Call (CreateBuffer V2 (buf_bytes (chosen_size argv))),
           Call (CreateBuffer V_out (buf_bytes (chosen_size argv)))]
        \<and> buf_len v (final (main E argv)) =
            (if status E (CreateBuffer v (buf_bytes (chosen_size argv))) = CL_SUCCESS
             then Some (words_of_bytes (buf_bytes (chosen_size argv))) else None)
        \<and> (0 \<le> sint (chosen_size argv) \<longrightarrow>
             words_of_bytes (buf_bytes (chosen_size argv)) = length (host_vec v (final (main E argv)))))
   \<and> (outcome_of (main E argv) \<noteq> Some (Exit 0) \<longrightarrow>
        filter is_create_buffer (trace (final (main E argv))) = [])
   \<and> (chosen_size argv = 0 \<and> status E (MallocTmp Program_buffer) = 0
        \<and> status E (MallocTmp Program_log) = 0 \<longrightarrow>
        outcome_of (main E argv) \<noteq> Some Crash
        \<and> (outcome_of (main E argv) = Some (Exit 0) \<longrightarrow>
             Call (EnqueueNDRangeKernel 0) \<in> set (trace (final (main E argv)))
             \<and> v_out (final (main E argv)) = []))"
proof -
  let ?N = "chosen_size argv"
  let ?s0 = "inputs_state E ?N"
  have sized: "list_all (sized_ok ?N) (trace (final (main E argv)))"
  proof (cases E argv rule: main_cases)
    case (crashed t)
    then show ?thesis using inputs_crash [of E argv Crash t] by simp
  next
    case (aborted out t)
    then show ?thesis
      using setup_sized [of ?N ?s0 E "''./vector_ops_ocl.cl''" "''vector_add_ocl''"] by simp
  next
    case (completed s1 s3 s4)
    have "list_all (sized_ok ?N) (trace s1)"
      using setup_sized [of ?N ?s0 E "''./vector_ops_ocl.cl''" "''vector_add_ocl''"] completed(2)
      by simp
    then show ?thesis using completed(5,12) by simp
  qed
  have same: "buf_bytes ?N = vec_bytes ?N"
    by (simp add: buf_bytes_def vec_bytes_def mult.commute)
  have exact: "0 \<le> sint ?N \<longrightarrow> unat (buf_bytes ?N) = nat (sint ?N) * unat sizeof_int"
    by (simp add: buf_bytes_def sizeof_int_def unat_buf)
  have created: "(outcome_of (main E argv) = Some (Exit 0) \<longrightarrow>
        filter is_create_buffer (trace (final (main E argv))) =
          [Call (CreateBuffer V1 (buf_bytes ?N)), Call (CreateBuffer V2 (buf_bytes ?N)),
           Call (CreateBuffer V_out (buf_bytes ?N))]
        \<and> (0 \<le> sint ?N \<longrightarrow> words_of_bytes (buf_bytes ?N) = length (host_vec v (final (main E argv)))))
     \<and> (outcome_of (main E argv) \<noteq> Some (Exit 0) \<longrightarrow>
        filter is_create_buffer (trace (final (main E argv))) = [])"
  proof (cases E argv rule: main_cases)
    case (crashed t)
    then show ?thesis using inputs_crash_creates [of E argv Crash t] by simp
  next
    case (aborted out t)
    have "out \<noteq> Exit 0"
      using setup_outcome [of E "''./vector_ops_ocl.cl''" "''vector_add_ocl''" ?s0] aborted(2) by auto
    moreover have "filter is_create_buffer (trace t) = []"
      using setup_creates [of E "''./vector_ops_ocl.cl''" "''vector_add_ocl''" ?s0] aborted(2) by simp
    ultimately show ?thesis using aborted(3) by simp
  next
    case (completed s1 s3 s4)
    have c1: "filter is_create_buffer (trace s1) = []"
      using setup_creates [of E "''./vector_ops_ocl.cl''" "''vector_add_ocl''" ?s0] completed(2) by simp
    have hv: "length (host_vec v s4) = nat (sint ?N)"
      using completed(7,8,9) by (cases v) simp_all
    have "0 \<le> sint ?N \<longrightarrow> words_of_bytes (buf_bytes ?N) = length (host_vec v (final (main E argv)))"
      using hv completed(5) by (cases v) (simp_all add: buf_bytes_def words_of_buf_bytes)
    then show ?thesis using completed(5,12) c1 by simp
  qed
  have held: "outcome_of (main E argv) = Some (Exit 0) \<longrightarrow>
        buf_len v (final (main E argv)) =
            (if status E (CreateBuffer v (buf_bytes ?N)) = CL_SUCCESS
             then Some (words_of_bytes (buf_bytes ?N)) else None)"
    using completed_buf_len [of E argv v] by blast
  have zero: "outcome_of (main E argv) \<noteq> Some Crash
        \<and> (outcome_of (main E argv) = Some (Exit 0) \<longrightarrow>
             Call (EnqueueNDRangeKernel 0) \<in> set (trace (final (main E argv)))
             \<and> v_out (final (main E argv)) = [])"
    if z: "?N = 0" and m: "status E (MallocTmp Program_buffer) = 0" "status E (MallocTmp Program_log) = 0"
  proof (cases E argv rule: main_cases)
    case (crashed t)
    then show ?thesis using inputs_crash [of E argv Crash t] z by simp
  next
    case (aborted out t)
    have "out \<noteq> Crash"
      using setup_crash [of E "''./vector_ops_ocl.cl''" "''vector_add_ocl''" ?s0] aborted(2) m by auto
    moreover have "out \<noteq> Exit 0"
      using setup_outcome [of E "''./vector_ops_ocl.cl''" "''vector_add_ocl''" ?s0] aborted(2) by auto
    ultimately show ?thesis using aborted(3) by simp
  next
    case (completed s1 s3 s4)
    then show ?thesis using z by (simp add: timed_calls_def)
  qed
  show ?thesis using sized same exact created held zero by blast
qed

theorem buffer_sizes_witness:
  "outcome_of (main env_ok [''prog'', ''3'']) = Some (Exit 0)
   \<and> 0 \<le> sint (chosen_size [''prog'', ''3''])
   \<and> status env_ok (CreateBuffer V_out (buf_bytes (chosen_size [''prog'', ''3'']))) = CL_SUCCESS
   \<and> unat (buf_bytes (chosen_size [''prog'', ''3''])) = 12
   \<and> filter is_create_buffer (trace (final (main env_ok [''prog'', ''3'']))) =
        [Call (CreateBuffer V1 12), Call (CreateBuffer V2 12), Call (CreateBuffer V_out 12)]
   \<and> buf_len V_out (final (main env_ok [''prog'', ''3''])) = Some 3
   \<and> length (host_vec V_out (final (main env_ok [''prog'', ''3'']))) = 3
   \<and> outcome_of (main (env_fail CreateContext (- 6)) [''prog'', ''3'']) \<noteq> Some (Exit 0)
   \<and> filter is_create_buffer (trace (final (main (env_fail CreateContext (- 6)) [''prog'', ''3'']))) = []
   \<and> chosen_size [''prog'', ''0''] = 0
   \<and> status env_limited (MallocTmp Program_buffer) = 0
   \<and> status env_limited (MallocTmp Program_log) = 0
   \<and> outcome_of (main env_limited [''prog'', ''0'']) = Some (Exit 0)
   \<and> Call (EnqueueNDRangeKernel 0) \<in> set (trace (final (main env_limited [''prog'', ''0''])))
   \<and> v_out (final (main env_limited [''prog'', ''0''])) = []"
proof -
  have a: "chosen_size [''prog'', ''0''] = 0" by code_simp
  have b: "status env_limited (MallocTmp Program_buffer) = 0"
    "status env_limited (MallocTmp Program_log) = 0" by code_simp+
  have c: "outcome_of (main env_limited [''prog'', ''0'']) = Some (Exit 0)" by code_simp
  have d: "chosen_size [''prog'', ''3''] = 3" by code_simp
  have e: "0 \<le> sint (chosen_size [''prog'', ''3''])" unfolding d by simp
  have f: "outcome_of (main env_ok [''prog'', ''3'']) = Some (Exit 0)"
    using env_ok_status by (rule main_completes)
  have g: "status env_ok (CreateBuffer V_out (buf_bytes (chosen_size [''prog'', ''3'']))) = CL_SUCCESS"
    using env_ok_status by blast
  have h: "outcome_of (main (env_fail CreateContext (- 6)) [''prog'', ''3'']) \<noteq> Some (Exit 0)"
    by code_simp
  have bb: "buf_bytes (3 :: c_int) = 12" by (simp add: buf_bytes_def sizeof_int_def)
  have wb: "words_of_bytes (12 :: size_t) = 3" by (simp add: words_of_bytes_def sizeof_int_def)
  note t = buffer_sizes [of "[''prog'', ''3'']" env_ok V_out]
  note u = buffer_sizes [of "[''prog'', ''3'']" "env_fail CreateContext (- 6)" V_out]
  note z = buffer_sizes [of "[''prog'', ''0'']" env_limited V_out]
  have t1: "unat (buf_bytes (chosen_size [''prog'', ''3''])) =
      nat (sint (chosen_size [''prog'', ''3''])) * unat sizeof_int"
    using t e by blast
  have t2: "filter is_create_buffer (trace (final (main env_ok [''prog'', ''3'']))) =
        [Call (CreateBuffer V1 (buf_bytes (chosen_size [''prog'', ''3'']))),
         Call (CreateBuffer V2 (buf_bytes (chosen_size [''prog'', ''3'']))),
         Call (CreateBuffer V_out (buf_bytes (chosen_size [''prog'', ''3''])))]"
    using t f by blast
  have t3: "buf_len V_out (final (main env_ok [''prog'', ''3''])) =
      (if status env_ok (CreateBuffer V_out (buf_bytes (chosen_size [''prog'', ''3'']))) = CL_SUCCESS
       then Some (words_of_bytes (buf_bytes (chosen_size [''prog'', ''3'']))) else None)"
    using t f by blast
  have t4: "words_of_bytes (buf_bytes (chosen_size [''prog'', ''3''])) =
      length (host_vec V_out (final (main env_ok [''prog'', ''3''])))"
    using t f e by blast
  have u1: "filter is_create_buffer (trace (final (main (env_fail CreateContext (- 6)) [''prog'', ''3'']))) = []"
    using u h by blast
  have z1: "Call (EnqueueNDRangeKernel 0) \<in> set (trace (final (main env_limited [''prog'', ''0''])))
      \<and> v_out (final (main env_limited [''prog'', ''0''])) = []"
    using z a b c by blast
  have r1: "unat (buf_bytes (chosen_size [''prog'', ''3''])) = 12"
    using t1 unfolding d by (simp add: sizeof_int_def)
  have r3: "buf_len V_out (final (main env_ok [''prog'', ''3''])) = Some 3"
    using t3 g unfolding d bb wb by simp
  have r4: "length (host_vec V_out (final (main env_ok [''prog'', ''3'']))) = 3"
    using t4 unfolding d bb wb by simp
  show ?thesis
    using a b c e f g h r1 t2 [unfolded d bb] r3 r4 u1 z1 by blast
qed

lemma no_conversion_zero:
  assumes "no_conversion a"
  shows "atoi a = 0"
proof (cases "dropWhile isspace a")
  case Nil
  show ?thesis by (simp add: atoi_def strtol10_def Nil)
next
  case (Cons c cs)
  show ?thesis
  proof (cases "c = CHR ''-'' \<or> c = CHR ''+''")
    case True
    then have "digits_value cs 0 = 0"
      using assms Cons by (cases cs) (simp_all add: no_conversion_def)
    then show ?thesis
      using True by (auto simp add: atoi_def strtol10_def Cons LONG_MIN_def LONG_MAX_def)
  next
    case False
    then have "\<not> isdigit c" using assms Cons by (simp add: no_conversion_def)
    then show ?thesis using False by (simp add: atoi_def strtol10_def Cons LONG_MAX_def)
  qed
qed

lemma digit_not_space_sign:
  "isdigit c \<Longrightarrow> \<not> isspace c \<and> c \<noteq> CHR ''-'' \<and> c \<noteq> CHR ''+''"
  by (auto simp add: isdigit_def isspace_def)

lemma sign_not_space: "\<not> isspace CHR ''-''" "\<not> isspace CHR ''+''"
  by (simp_all add: isspace_def)

lemma digits_value_run:
  "list_all isdigit ds \<Longrightarrow> rest = [] \<or> \<not> isdigit (hd rest) \<Longrightarrow>
   digits_value (ds @ rest) acc = foldl (\<lambda>a c. a * 10 + (int (of_char c) - 48)) acc ds"
proof (induction ds arbitrary: acc)
  case Nil
  then show ?case by (cases rest) auto
next
  case (Cons d ds)
  then show ?case by simp
qed

lemma dropWhile_spaces:
  "list_all isspace ws \<Longrightarrow> \<not> isspace c \<Longrightarrow> dropWhile isspace (ws @ c # x) = c # x"
  by (induction ws) simp_all

lemma strtol10_prefix:
  assumes "list_all isspace ws" and "list_all isdigit ds" and "ds \<noteq> []"
    and "rest = [] \<or> \<not> isdigit (hd rest)"
  shows "strtol10 (ws @ ds @ rest) = min LONG_MAX (decimal_value ds)"
    and "strtol10 (ws @ CHR ''+'' # ds @ rest) = min LONG_MAX (decimal_value ds)"
    and "strtol10 (ws @ CHR ''-'' # ds @ rest) = max LONG_MIN (- decimal_value ds)"
proof -
  obtain d ds' where ds: "ds = d # ds'" using assms(3) by (cases ds) auto
  then have d: "isdigit d" using assms(2) by simp
  note nd = digit_not_space_sign [OF d]
  have run: "digits_value (ds @ rest) 0 = decimal_value ds"
    using digits_value_run [OF assms(2,4), of 0] by (simp add: decimal_value_def)
  have "dropWhile isspace (ws @ ds @ rest) = d # ds' @ rest"
    using dropWhile_spaces [OF assms(1), of d "ds' @ rest"] nd ds by simp
  then show "strtol10 (ws @ ds @ rest) = min LONG_MAX (decimal_value ds)"
    using nd run ds by (simp add: strtol10_def)
  have "dropWhile isspace (ws @ CHR ''+'' # ds @ rest) = CHR ''+'' # ds @ rest"
    using dropWhile_spaces [OF assms(1) sign_not_space(2)] by simp
  then show "strtol10 (ws @ CHR ''+'' # ds @ rest) = min LONG_MAX (decimal_value ds)"
    using run by (simp add: strtol10_def)
  have "dropWhile isspace (ws @ CHR ''-'' # ds @ rest) = CHR ''-'' # ds @ rest"
    using dropWhile_spaces [OF assms(1) sign_not_space(1)] by simp
  then show "strtol10 (ws @ CHR ''-'' # ds @ rest) = max LONG_MIN (- decimal_value ds)"
    using run by (simp add: strtol10_def)
qed

text \<open>
  Beyond the range of \<open>long\<close> the value read is \<open>LONG_MAX\<close> or \<open>LONG_MIN\<close>, of which
  \<open>int\<close> keeps -1 and 0.
\<close>

lemma atoi_saturates:
  "sint (atoi ''99999999999999999999'') = - 1 \<and> sint (atoi ''-99999999999999999999'') = 0"
  by code_simp

text \<open>
  Claim C9, as stated, fails. The arguments \<open>12abc\<close>, \<open>3.9\<close> and \<open>1e3\<close> are not decimal
  integers, and the runs use the sizes 12, 3 and 1, not 0.
\<close>

theorem non_integer_argument_read_as_prefix:
  "1 < length [''prog'', ''12abc'']
   \<and> \<not> is_decimal_integer ([''prog'', ''12abc''] ! 1)
   \<and> chosen_size [''prog'', ''12abc''] = 12
   \<and> chosen_size [''prog'', ''12abc''] \<noteq> 0
   \<and> \<not> is_decimal_integer ([''prog'', ''3.9''] ! 1)
   \<and> chosen_size [''prog'', ''3.9''] = 3
   \<and> \<not> is_decimal_integer ([''prog'', ''1e3''] ! 1)
   \<and> chosen_size [''prog'', ''1e3''] = 1"
  by code_simp

text \<open>
  Claim C9, amended. When an argument is present, the size the run uses is \<open>atoi\<close> of it.
  That is 0 when no conversion can be performed: after white space and an optional sign
  no digit follows. Otherwise it is the number written by the leading digits, with its
  sign, limited to the range of \<open>long\<close> and then cut to the 32 bits of \<open>int\<close>; what
  follows the digits is ignored. Nothing checks the value, whatever its sign: the first
  thing the run does is the host allocation of \<open>sizeof(int) * N\<close> bytes, every
  allocation, buffer and transfer is sized from \<open>N\<close>, and a run that reaches the end of
  \<open>main\<close> has created its buffers with \<open>N * sizeof(int)\<close> bytes and launched \<open>(size_t) N\<close>
  work items.
\<close>

theorem size_argument_unvalidated:
  assumes "1 < length argv"
  shows "chosen_size argv = atoi (argv ! 1)
   \<and> (no_conversion (argv ! 1) \<longrightarrow> chosen_size argv = 0)
   \<and> (list_all isspace ws \<and> list_all isdigit ds \<and> ds \<noteq> [] \<and> (rest = [] \<or> \<not> isdigit (hd rest)) \<longrightarrow>
        (argv ! 1 = ws @ ds @ rest \<or> argv ! 1 = ws @ CHR ''+'' # ds @ rest \<longrightarrow>
           chosen_size argv = word_of_int (min LONG_MAX (decimal_value ds)))
        \<and> (argv ! 1 = ws @ CHR ''-'' # ds @ rest \<longrightarrow>
           chosen_size argv = word_of_int (max LONG_MIN (- decimal_value ds))))
   \<and> trace (final (main E argv)) \<noteq> []
   \<and> hd (trace (final (main E argv))) = Call (Malloc V1 (sizeof_int * scast (atoi (argv ! 1))))
   \<and> list_all (sized_ok (atoi (argv ! 1))) (trace (final (main E argv)))
   \<and> (outcome_of (main E argv) = Some (Exit 0) \<longrightarrow>
        Call (CreateBuffer V1 (scast (atoi (argv ! 1)) * sizeof_int)) \<in> set (trace (final (main E argv)))
        \<and> Call (EnqueueNDRangeKernel (scast (atoi (argv ! 1)))) \<in> set (trace (final (main E argv))))"
proof -
  let ?N = "chosen_size argv"
  let ?s0 = "inputs_state E ?N"
  have N: "?N = atoi (argv ! 1)" using assms by (simp add: chosen_size_def)
  have facts: "trace (final (main E argv)) \<noteq> []
     \<and> hd (trace (final (main E argv))) = Call (Malloc V1 (vec_bytes ?N))
     \<and> list_all (sized_ok ?N) (trace (final (main E argv)))
     \<and> (outcome_of (main E argv) = Some (Exit 0) \<longrightarrow>
          Call (CreateBuffer V1 (buf_bytes ?N)) \<in> set (trace (final (main E argv)))
          \<and> Call (EnqueueNDRangeKernel (scast ?N)) \<in> set (trace (final (main E argv))))"
  proof (cases E argv rule: main_cases)
    case (crashed t)
    then show ?thesis using inputs_crash [of E argv Crash t] by simp
  next
    case (aborted out t)
    have "out \<noteq> Exit 0"
      using setup_outcome [of E "''./vector_ops_ocl.cl''" "''vector_add_ocl''" ?s0] aborted(2) by auto
    then show ?thesis
      using aborted setup_sized [of ?N ?s0 E "''./vector_ops_ocl.cl''" "''vector_add_ocl''"]
        setup_hd [of ?s0 E "''./vector_ops_ocl.cl''" "''vector_add_ocl''"]
      by simp
  next
    case (completed s1 s3 s4)
    have s1: "list_all (sized_ok ?N) (trace s1)" "trace s1 \<noteq> []"
      "hd (trace s1) = Call (Malloc V1 (vec_bytes ?N))"
      using setup_sized [of ?N ?s0 E "''./vector_ops_ocl.cl''" "''vector_add_ocl''"]
        setup_hd [of ?s0 E "''./vector_ops_ocl.cl''" "''vector_add_ocl''"] completed(2)
      by simp_all
    then show ?thesis
      using completed(5,12) by (simp add: memory_calls_def timed_calls_def)
  qed
  have prefix: "(argv ! 1 = ws @ ds @ rest \<or> argv ! 1 = ws @ CHR ''+'' # ds @ rest \<longrightarrow>
           ?N = word_of_int (min LONG_MAX (decimal_value ds)))
        \<and> (argv ! 1 = ws @ CHR ''-'' # ds @ rest \<longrightarrow>
           ?N = word_of_int (max LONG_MIN (- decimal_value ds)))"
    if "list_all isspace ws" "list_all isdigit ds" "ds \<noteq> []" "rest = [] \<or> \<not> isdigit (hd rest)"
    using strtol10_prefix [OF that] unfolding N by (auto simp add: atoi_def)
  have zero: "no_conversion (argv ! 1) \<longrightarrow> ?N = 0"
    using no_conversion_zero [of "argv ! 1"] unfolding N by blast
  have rest: "trace (final (main E argv)) \<noteq> []
     \<and> hd (trace (final (main E argv))) = Call (Malloc V1 (sizeof_int * scast (atoi (argv ! 1))))
     \<and> list_all (sized_ok (atoi (argv ! 1))) (trace (final (main E argv)))
     \<and> (outcome_of (main E argv) = Some (Exit 0) \<longrightarrow>
          Call (CreateBuffer V1 (scast (atoi (argv ! 1)) * sizeof_int)) \<in> set (trace (final (main E argv)))
          \<and> Call (EnqueueNDRangeKernel (scast (atoi (argv ! 1)))) \<in> set (trace (final (main E argv))))"
    using facts unfolding N by (simp add: vec_bytes_def buf_bytes_def)
  show ?thesis using N zero prefix rest by blast
qed

theorem size_argument_unvalidated_witness:
  "1 < length [''prog'', ''-5'']
   \<and> sint (chosen_size [''prog'', ''-5'']) = - 5
   \<and> hd (trace (final (main env_limited [''prog'', ''-5'']))) = Call (Malloc V1 18446744073709551596)
   \<and> outcome_of (main env_limited [''prog'', ''-5'']) = Some (Exit 0)
   \<and> Call (CreateBuffer V1 18446744073709551596) \<in> set (trace (final (main env_limited [''prog'', ''-5''])))
   \<and> Call (EnqueueNDRangeKernel 18446744073709551611) \<in> set (trace (final (main env_limited [''prog'', ''-5''])))
   \<and> 1 < length [''prog'', ''x12'']
   \<and> no_conversion ([''prog'', ''x12''] ! 1)
   \<and> chosen_size [''prog'', ''x12''] = 0
   \<and> 1 < length [''prog'', '' 12abc'']
   \<and> list_all isspace '' '' \<and> list_all isdigit ''12'' \<and> \<not> isdigit (hd ''abc'')
   \<and> chosen_size [''prog'', '' 12abc''] = 12"
proof -
  have a: "atoi ([''prog'', ''-5''] ! 1) = - 5" by code_simp
  have b: "outcome_of (main env_limited [''prog'', ''-5'']) = Some (Exit 0)" by code_simp
  have c: "no_conversion ([''prog'', ''x12''] ! 1)" by code_simp
  have l: "1 < length [''prog'', ''-5'']" "1 < length [''prog'', ''x12'']"
    "1 < length [''prog'', '' 12abc'']" by simp_all
  have p: "list_all isspace '' ''" "list_all isdigit ''12''" "''12'' \<noteq> []"
    "''abc'' = [] \<or> \<not> isdigit (hd ''abc'')" "\<not> isdigit (hd ''abc'')"
    by (simp_all add: isspace_def isdigit_def)
  have q: "[''prog'', '' 12abc''] ! 1 = '' '' @ ''12'' @ ''abc''" by simp
  have dv: "word_of_int (min LONG_MAX (decimal_value ''12'')) = (12 :: c_int)" by code_simp
  note t = size_argument_unvalidated [OF l(1), where E = env_limited and ws = "[]" and ds = "''5''" and rest = "[]", unfolded a]
  note u = size_argument_unvalidated [OF l(2), where E = env_limited]
  note w = size_argument_unvalidated [OF l(3), where E = env_limited and ws = "'' ''" and ds = "''12''" and rest = "''abc''"]
  have z: "chosen_size [''prog'', ''x12''] = 0" using u c by blast
  have n: "sint (chosen_size [''prog'', ''-5'']) = - 5" using t by simp
  have "chosen_size [''prog'', '' 12abc''] = word_of_int (min LONG_MAX (decimal_value ''12''))"
    using w p q by blast
  then have m: "chosen_size [''prog'', '' 12abc''] = 12" unfolding dv .
  have v: "sizeof_int * scast (- 5 :: c_int) = (18446744073709551596 :: size_t)"
    "scast (- 5 :: c_int) * sizeof_int = (18446744073709551596 :: size_t)"
    by (simp_all add: sizeof_int_def)
  have x: "scast (- 5 :: c_int) = (18446744073709551611 :: size_t)" by simp
  show ?thesis using t [unfolded v, unfolded x] b c l z n p m by blast
qed

text \<open>
  Claim C10. Two runs with the same size, whose host allocations succeed, draw the same
  two input vectors, whatever else differs between their environments: the program
  never calls \<open>srand\<close>, so both read the generator's fixed sequence from its start, A
  from the first \<open>N\<close> values and B from the next \<open>N\<close>, each reduced modulo 100. When in
  both runs every call of the platform succeeds, the output vectors are the same too.
\<close>

theorem inputs_deterministic:
  assumes "rand_seq E = rand_seq E'" and "chosen_size argv = chosen_size argv'"
    and "\<forall>v. status E (Malloc v (vec_bytes (chosen_size argv))) = 0"
    and "\<forall>v. status E' (Malloc v (vec_bytes (chosen_size argv'))) = 0"
  shows "v1 (final (main E argv)) = v1 (final (main E' argv'))
   \<and> v2 (final (main E argv)) = v2 (final (main E' argv'))
   \<and> v1 (final (main E argv)) =
        map (\<lambda>j. word_of_nat (rand_seq E j mod 100)) [0..<nat (sint (chosen_size argv))]
   \<and> v2 (final (main E argv)) =
        map (\<lambda>j. word_of_nat (rand_seq E (nat (sint (chosen_size argv)) + j) mod 100))
          [0..<nat (sint (chosen_size argv))]
   \<and> ((\<forall>c. status E c = CL_SUCCESS) \<and> (\<forall>c. status E' c = CL_SUCCESS)
        \<and> 0 \<le> sint (chosen_size argv) \<longrightarrow>
        v_out (final (main E argv)) = v_out (final (main E' argv')))"
proof -
  have inputs: "v1 (final (main X a)) = rand_vec X 0 (nat (sint (chosen_size a))) \<and>
      v2 (final (main X a)) = rand_vec X (nat (sint (chosen_size a))) (nat (sint (chosen_size a)))"
    if "\<forall>v. status X (Malloc v (vec_bytes (chosen_size a))) = 0" for X a
  proof (cases X a rule: main_cases)
    case (crashed t)
    then show ?thesis using inputs_crash [of X a Crash t] that by simp
  next
    case (aborted out t)
    then show ?thesis
      using setup_final_data [of X "inputs_state X (chosen_size a)"]
      by (simp add: inputs_state_facts)
  next
    case (completed s1 s3 s4)
    then show ?thesis by simp
  qed
  have outv: "v_out (final (main X a)) =
      map2 (+) (rand_vec X 0 (nat (sint (chosen_size a))))
        (rand_vec X (nat (sint (chosen_size a))) (nat (sint (chosen_size a))))"
    if ok: "\<forall>c. status X c = CL_SUCCESS" and n: "0 \<le> sint (chosen_size a)" for X a
  proof -
    let ?s0 = "inputs_state X (chosen_size a)"
    have r: "main_inputs X a initial_state = Running ?s0"
      using ok by (simp add: main_inputs_eq CL_SUCCESS_def)
    obtain s' where s': "seq (main_setup X ?s0) (main_timed X) = Running s'"
        "v_out s' = map2 (+) (v1 ?s0) (v2 ?s0)"
      using pipeline_adds [OF ok, of ?s0] n by (auto simp add: inputs_state_facts)
    have "main X a = main_report s'"
      using r s'(1) by (simp add: main_def)
    then show ?thesis using s'(2) by (simp add: main_report_eq inputs_state_facts)
  qed
  have rv: "rand_vec E k n = rand_vec E' k n" for k n
    using assms(1) by (rule rand_vec_cong)
  let ?n = "nat (sint (chosen_size argv))"
  have i1: "v1 (final (main E argv)) = rand_vec E 0 ?n" "v2 (final (main E argv)) = rand_vec E ?n ?n"
    using inputs [OF assms(3)] by simp_all
  have i2: "v1 (final (main E' argv')) = rand_vec E 0 ?n" "v2 (final (main E' argv')) = rand_vec E ?n ?n"
    using inputs [OF assms(4)] assms(2) rv by simp_all
  have o: "v_out (final (main E argv)) = v_out (final (main E' argv'))"
    if "\<forall>c. status E c = CL_SUCCESS" "\<forall>c. status E' c = CL_SUCCESS"
      "0 \<le> sint (chosen_size argv)"
    using outv [of E argv] outv [of E' argv'] that assms(2) rv by simp
  have e1: "rand_vec E 0 ?n = map (\<lambda>j. word_of_nat (rand_seq E j mod 100)) [0..<?n]"
    by (simp add: rand_vec_def)
  have e2: "rand_vec E ?n ?n = map (\<lambda>j. word_of_nat (rand_seq E (?n + j) mod 100)) [0..<?n]"
    by (simp add: rand_vec_def)
  show ?thesis
    using i1 i2 o e1 e2 by simp
qed

theorem inputs_deterministic_witness:
  "v1 (final (main env_ok [''prog'', ''2''])) =
     v1 (final (main (env_ok\<lparr>clock := (\<lambda>k. 5), dev_garbage := (\<lambda>v i. 9)\<rparr>) [''again'', '' +2'']))
   \<and> v1 (final (main env_ok [''prog'', ''2''])) = [3, 10]
   \<and> v2 (final (main env_ok [''prog'', ''2''])) = [17, 24]
   \<and> v_out (final (main env_ok [''prog'', ''2''])) =
     v_out (final (main (env_ok\<lparr>clock := (\<lambda>k. 5), dev_garbage := (\<lambda>v i. 9)\<rparr>) [''again'', '' +2'']))"
proof -
  let ?E' = "env_ok\<lparr>clock := (\<lambda>k. 5), dev_garbage := (\<lambda>v i. 9)\<rparr>"
  have a: "chosen_size [''prog'', ''2''] = 2" "chosen_size [''again'', '' +2''] = 2" by code_simp+
  have r: "rand_seq env_ok = rand_seq ?E'" by simp
  have ok: "\<forall>c. status env_ok c = CL_SUCCESS" "\<forall>c. status ?E' c = CL_SUCCESS"
    by (simp_all add: env_ok_def CL_SUCCESS_def)
  have m: "\<forall>v. status env_ok (Malloc v (vec_bytes (chosen_size [''prog'', ''2'']))) = 0"
    "\<forall>v. status ?E' (Malloc v (vec_bytes (chosen_size [''again'', '' +2'']))) = 0"
    by (simp_all add: env_ok_def)
  have n: "0 \<le> sint (chosen_size [''prog'', ''2''])" unfolding a by simp
  have e: "[0..<nat (sint (2 :: c_int))] = [0, 1]" by (simp add: upt_rec)
  have rs: "rand_seq env_ok = (\<lambda>k. 7 * k + 3)" by (simp add: env_ok_def)
  have eq: "chosen_size [''prog'', ''2''] = chosen_size [''again'', '' +2'']" unfolding a by simp
  note t = inputs_deterministic [OF r eq m, unfolded a e rs]
  have x: "v1 (final (main env_ok [''prog'', ''2''])) = v1 (final (main ?E' [''again'', '' +2'']))"
    using t by blast
  have "v1 (final (main env_ok [''prog'', ''2''])) =
      map (\<lambda>j. word_of_nat ((7 * j + 3) mod 100)) [0, 1]"
    using t by blast
  then have y1: "v1 (final (main env_ok [''prog'', ''2''])) = [3, 10]" by simp
  have "v2 (final (main env_ok [''prog'', ''2''])) =
      map (\<lambda>j. word_of_nat ((7 * (nat (sint (2 :: c_int)) + j) + 3) mod 100)) [0, 1]"
    using t by blast
  then have y2: "v2 (final (main env_ok [''prog'', ''2''])) = [17, 24]" by simp
  note y = y1 y2
  have z: "v_out (final (main env_ok [''prog'', ''2''])) = v_out (final (main ?E' [''again'', '' +2'']))"
    using t ok by simp
  show ?thesis using x y z by blast
qed

subsection \<open>The two defects hold in every run\<close>

lemma setup_argerr:
  "Perror ''Couldn't create a kernel argument'' \<notin> set (trace s) \<Longrightarrow>
   Perror ''Couldn't create a kernel argument''
     \<notin> set (trace (final (setup_openCL_device_context_queue_kernel E f k s)))"
  by (simp add: setup_defs)

lemma setup_clock:
  "Call Clock_now \<notin> set (trace s) \<Longrightarrow>
   Call Clock_now \<notin> set (trace (final (setup_openCL_device_context_queue_kernel E f k s)))"
  by (simp add: setup_defs)

lemma render_no_calls [simp]:
  "Call c \<notin> set (render A)" "Perror m \<notin> set (render A)"
  by (auto simp add: render_def pr_def ellipsis_def separator_def)

text \<open>
  No run ever takes the fatal branch of \<open>copy_kernel_args\<close>, whatever the platform
  answers to the four bindings.
\<close>

lemma kernel_argument_check_dead:
  "Perror ''Couldn't create a kernel argument'' \<notin> set (trace (final (main E argv)))"
proof (cases E argv rule: main_cases)
  case (crashed t)
  then show ?thesis by (auto simp add: main_inputs_eq split: if_splits)
next
  case (aborted out t)
  then show ?thesis
    using setup_argerr [of "inputs_state E (chosen_size argv)" E "''./vector_ops_ocl.cl''" "''vector_add_ocl''"]
    by (simp add: inputs_state_facts)
next
  case (completed s1 s3 s4)
  have "Perror ''Couldn't create a kernel argument'' \<notin> set (trace s1)"
    using setup_argerr [of "inputs_state E (chosen_size argv)" E "''./vector_ops_ocl.cl''" "''vector_add_ocl''"]
      completed(2) by (simp add: inputs_state_facts)
  then show ?thesis
    using completed(5,12)
    by (simp add: memory_calls_def timed_calls_def time_line_def release_calls_def)
qed

lemma timed_window_eq:
  assumes "Call Clock_now \<notin> set P" and "Call Clock_now \<notin> set M"
  shows "timed_window (P @ Call Clock_now # M @ Call Clock_now # R) = M"
proof -
  have "dropWhile (\<lambda>e. e \<noteq> Call Clock_now) (P @ Call Clock_now # M @ Call Clock_now # R) =
      Call Clock_now # M @ Call Clock_now # R"
    using assms(1) by (auto simp add: dropWhile_append3)
  moreover have "takeWhile (\<lambda>e. e \<noteq> Call Clock_now) (M @ Call Clock_now # R) = M"
    using assms(2) by (auto simp add: takeWhile_tail)
  ultimately show ?thesis by (simp add: timed_window_def)
qed

text \<open>
  In every run that reaches the end of \<open>main\<close>, the events between the two clock readings
  are the launch, the wait, the read-back and the printing of the output vector.
\<close>

lemma timed_window_of_run:
  assumes "outcome_of (main E argv) = Some (Exit 0)"
  shows "timed_window (trace (final (main E argv))) =
     [Call (EnqueueNDRangeKernel (scast (chosen_size argv))), Call WaitForEvents,
      Call (EnqueueReadBuffer V_out (buf_bytes (chosen_size argv)))]
     @ render (v_out (final (main E argv)))"
proof (cases E argv rule: main_cases)
  case (crashed t)
  then show ?thesis using assms by simp
next
  case (aborted out t)
  then show ?thesis
    using assms setup_outcome [of E "''./vector_ops_ocl.cl''" "''vector_add_ocl''" "inputs_state E (chosen_size argv)"]
    by auto
next
  case (completed s1 s3 s4)
  let ?N = "chosen_size argv"
  let ?M = "[Call (EnqueueNDRangeKernel (scast ?N)), Call WaitForEvents,
      Call (EnqueueReadBuffer V_out (buf_bytes ?N))] @ render (v_out s4)"
  have p: "Call Clock_now \<notin> set (trace s1 @ memory_calls ?N)"
    using setup_clock [of "inputs_state E ?N" E "''./vector_ops_ocl.cl''" "''vector_add_ocl''"]
      completed(2) by (simp add: inputs_state_facts memory_calls_def)
  have m: "Call Clock_now \<notin> set ?M" by simp
  have "trace (final (main E argv)) =
      (trace s1 @ memory_calls ?N) @ Call Clock_now # ?M @ Call Clock_now #
        (time_line (t_stop s4 - t_start s4) # release_calls)"
    using completed(5,12) by (simp add: timed_calls_def)
  then show ?thesis
    using timed_window_eq [OF p m] completed(5) by simp
qed

text \<open>
  Claim C3. \<open>copy_kernel_args\<close> tests the global \<open>err\<close>, which no \<open>clSetKernelArg\<close>
  assigns. At a platform whose binding of argument 1 fails with
  \<open>CL_INVALID_MEM_OBJECT\<close> (-38) the run with one element still ends with exit code 0,
  and nothing was written by \<open>perror\<close>. By \<open>kernel_argument_check_dead\<close> no run of
  the program takes the fatal branch.
\<close>

theorem binding_failure_not_detected:
  "status (env_fail (SetKernelArg 1) (- 38)) (SetKernelArg 1) < 0
   \<and> outcome_of (main (env_fail (SetKernelArg 1) (- 38)) [''prog'', ''1'']) = Some (Exit 0)
   \<and> filter is_perror (trace (final (main (env_fail (SetKernelArg 1) (- 38)) [''prog'', ''1'']))) = []"
  by code_simp

text \<open>
  Claim C2. The calls and prints between the two clock readings of a run with one
  element on a platform where everything succeeds: launch, wait, read-back, and then
  the printing of the output vector, which \<open>main\<close> does before it reads the clock again.
  By \<open>timed_window_of_run\<close> every run that completes has this shape.
\<close>

theorem timed_window_includes_print:
  "timed_window (trace (final (main env_ok [''prog'', ''1'']))) =
     [Call (EnqueueNDRangeKernel 1), Call WaitForEvents, Call (EnqueueReadBuffer V_out 4),
      Printf ''%d '' [ArgInt 13], separator]"
  by code_simp

end
